theory Spec2Isabelle
  imports Main "HOL-Library.Word" "HOL-Library.Signed_Division" "HOL-Library.Sublist"
begin

unbundle bit_operations_syntax

text \<open>
  A model of \<^verbatim>\<open>GL_Commdlg.hpp\<close>, a header that wraps the common dialogs of Windows
  (file, directory, colour and font pickers) and builds two dialogs of its own, a prompt
  and a message box. The repository holds the header twice, with English and with Chinese
  comments; the two differ in comments and in the texts of three literals (the hint of
  the filter error, the font name, the labels of the two prompt buttons), and the model
  follows the English one.

  Functions of the header keep their names. What the platform does is a parameter of each
  function: the reply of a native dialog, the messages a window receives, the values of a
  registry key. Exceptions are values: a function that may throw returns \<open>exn + 'a\<close>,
  and one that writes through a reference returns the content written together with the
  exception, if any.
\<close>

section \<open>Text, exceptions and machine integers\<close>

text \<open>
  \<^verbatim>\<open>std::string\<close> is a sequence of bytes (\<^typ>\<open>string\<close>), \<^verbatim>\<open>std::wstring\<close> on
  the target platform a sequence of 16-bit code units. Both may hold the value 0 anywhere;
  a C string read from a pointer ends at the first 0.
\<close>

type_synonym wchar_t = "16 word"
type_synonym wstring = "wchar_t list"
type_synonym DWORD = "32 word"

text \<open>The two exception classes the header throws, each with its \<^verbatim>\<open>what()\<close> text.\<close>

datatype exn = invalid_argument string | runtime_error string

text \<open>A wide literal \<^verbatim>\<open>L"..."\<close> whose characters are all ASCII.\<close>

definition L :: "string \<Rightarrow> wstring" where
  "L s = map (\<lambda>c. of_char c) s"

text \<open>\<^verbatim>\<open>std::wstring s = ptr\<close> and \<^verbatim>\<open>wcslen\<close>: the units before the first 0.\<close>

definition c_str_value :: "wstring \<Rightarrow> wstring" where
  "c_str_value p = takeWhile (\<lambda>u. u \<noteq> 0) p"

text \<open>\<^verbatim>\<open>std::to_string\<close> of an unsigned value: its decimal digits.\<close>

definition digit_char :: "nat \<Rightarrow> char" where
  "digit_char d = char_of (of_char CHR ''0'' + d)"

fun to_string :: "nat \<Rightarrow> string" where
  "to_string n =
     (if n < 10 then [digit_char n] else to_string (n div 10) @ [digit_char (n mod 10)])"

declare to_string.simps [simp del]

text \<open>
  \<^verbatim>\<open>static_cast<int>(s.size())\<close>: the size reduced to a 32-bit two's complement value.
\<close>

definition static_cast_int :: "nat \<Rightarrow> int" where
  "static_cast_int n = (int n + 2 ^ 31) mod 2 ^ 32 - 2 ^ 31"

text \<open>
  The sum of two \<^verbatim>\<open>int\<close> values. The language leaves a sum outside the 32 bits
  undefined; the model gives it the value the two's complement arithmetic of the
  platform's compilers gives, the sum reduced to 32 bits.
\<close>

definition int_plus :: "int \<Rightarrow> int \<Rightarrow> int" where
  "int_plus a b = (a + b + 2 ^ 31) mod 2 ^ 32 - 2 ^ 31"

section \<open>The platform's conversion primitives\<close>

text \<open>
  Modelled from the spec: \<^verbatim>\<open>MultiByteToWideChar\<close> and \<^verbatim>\<open>WideCharToMultiByte\<close>, which
  the header calls and the repository does not contain. Section 4.1 of the specification
  has them convert between UTF-8 and the platform's native wide text, without loss on
  valid input; the native wide text of the platform is UTF-16. This section is that
  transcoder; a byte or a code unit that is not part of a well-formed sequence becomes
  U+FFFD, as the platform does when no flag asks for an error. Code points, bytes and
  code units are natural numbers inside the transcoder; the primitives convert at their
  boundary.
\<close>

definition is_continuation :: "nat \<Rightarrow> bool" where
  "is_continuation b \<longleftrightarrow> 0x80 \<le> b \<and> b < 0xC0"

definition is_scalar :: "nat \<Rightarrow> bool" where
  "is_scalar c \<longleftrightarrow> c < 0xD800 \<or> (0xE000 \<le> c \<and> c \<le> 0x10FFFF)"

definition REPLACEMENT_CHARACTER :: nat where
  "REPLACEMENT_CHARACTER = 0xFFFD"

text \<open>
  The well-formed UTF-8 sequence at the head of a byte list (Unicode, table 3-7): its
  scalar value and its length; \<open>None\<close> where the head is not well formed.
\<close>

fun utf8_next :: "nat list \<Rightarrow> (nat \<times> nat) option" where
  "utf8_next [] = None"
| "utf8_next (b0 # bs) =
     (if b0 < 0x80 then Some (b0, 1)
      else if 0xC2 \<le> b0 \<and> b0 < 0xE0 then
        (case bs of
           b1 # _ \<Rightarrow>
             if is_continuation b1 then Some ((b0 - 0xC0) * 64 + (b1 - 0x80), 2) else None
         | _ \<Rightarrow> None)
      else if 0xE0 \<le> b0 \<and> b0 < 0xF0 then
        (case bs of
           b1 # b2 # _ \<Rightarrow>
             (let c = (b0 - 0xE0) * 4096 + (b1 - 0x80) * 64 + (b2 - 0x80)
              in if is_continuation b1 \<and> is_continuation b2 \<and> 0x800 \<le> c \<and> is_scalar c
                 then Some (c, 3) else None)
         | _ \<Rightarrow> None)
      else if 0xF0 \<le> b0 \<and> b0 < 0xF5 then
        (case bs of
           b1 # b2 # b3 # _ \<Rightarrow>
             (let c = (b0 - 0xF0) * 262144 + (b1 - 0x80) * 4096 + (b2 - 0x80) * 64 + (b3 - 0x80)
              in if is_continuation b1 \<and> is_continuation b2 \<and> is_continuation b3
                    \<and> 0x10000 \<le> c \<and> c \<le> 0x10FFFF
                 then Some (c, 4) else None)
         | _ \<Rightarrow> None)
      else None)"

text \<open>A byte that starts no well-formed sequence decodes to U+FFFD and is skipped.\<close>

fun utf8_decode :: "nat list \<Rightarrow> nat list" where
  "utf8_decode [] = []"
| "utf8_decode (b # bs) =
     (case utf8_next (b # bs) of
        Some (c, n) \<Rightarrow> c # utf8_decode (drop (n - 1) bs)
      | None \<Rightarrow> REPLACEMENT_CHARACTER # utf8_decode bs)"

definition utf8_encode :: "nat \<Rightarrow> nat list" where
  "utf8_encode c =
     (if c < 0x80 then [c]
      else if c < 0x800 then [0xC0 + c div 64, 0x80 + c mod 64]
      else if c < 0x10000 then [0xE0 + c div 4096, 0x80 + c div 64 mod 64, 0x80 + c mod 64]
      else [0xF0 + c div 262144, 0x80 + c div 4096 mod 64, 0x80 + c div 64 mod 64,
            0x80 + c mod 64])"

definition utf16_encode :: "nat \<Rightarrow> nat list" where
  "utf16_encode c =
     (if c < 0x10000 then [c]
      else [0xD800 + (c - 0x10000) div 1024, 0xDC00 + (c - 0x10000) mod 1024])"

definition is_high_surrogate :: "nat \<Rightarrow> bool" where
  "is_high_surrogate u \<longleftrightarrow> 0xD800 \<le> u \<and> u < 0xDC00"

definition is_low_surrogate :: "nat \<Rightarrow> bool" where
  "is_low_surrogate u \<longleftrightarrow> 0xDC00 \<le> u \<and> u < 0xE000"

text \<open>A surrogate without its partner decodes to U+FFFD.\<close>

fun utf16_decode :: "nat list \<Rightarrow> nat list" where
  "utf16_decode [] = []"
| "utf16_decode [u] =
     (if is_high_surrogate u \<or> is_low_surrogate u then [REPLACEMENT_CHARACTER] else [u])"
| "utf16_decode (u # v # us) =
     (if is_high_surrogate u then
        (if is_low_surrogate v
         then (0x10000 + (u - 0xD800) * 1024 + (v - 0xDC00)) # utf16_decode us
         else REPLACEMENT_CHARACTER # utf16_decode (v # us))
      else if is_low_surrogate u then REPLACEMENT_CHARACTER # utf16_decode (v # us)
      else u # utf16_decode (v # us))"

definition utf8_to_utf16 :: "string \<Rightarrow> wstring" where
  "utf8_to_utf16 s = map of_nat (concat (map utf16_encode (utf8_decode (map of_char s))))"

definition utf16_to_utf8 :: "wstring \<Rightarrow> string" where
  "utf16_to_utf8 w = map char_of (concat (map utf8_encode (utf16_decode (map unat w))))"

definition ERROR_INVALID_PARAMETER :: nat where
  "ERROR_INVALID_PARAMETER = 87"

definition INT_MAX :: nat where
  "INT_MAX = 2147483647"

text \<open>
  Modelled from the spec: the platform primitive behind \<^verbatim>\<open>utf8ToWide\<close>, which the
  repository calls and does not contain. Section 4.1 describes it as the conversion from
  UTF-8 to the platform's native wide text, lossless on valid input, which reports its
  failures. The model is a UTF-8 to UTF-16 transcoder over the first \<open>cbMultiByte\<close>
  bytes of the source. \<open>Inl e\<close> stands for the return value 0 with last error \<open>e\<close>,
  \<open>Inr w\<close> for the return value \<open>length w\<close> with \<open>w\<close> written to a large enough
  buffer; the size query and the conversion proper are the same computation. The
  platform documents that a size of 0 fails, with the error of an invalid parameter, and
  that a size of -1 reads a terminated source, terminator included; nothing is said
  about other negative sizes or about results too long for the \<^verbatim>\<open>int\<close> return value,
  and the model lets both fail. A call that converts nothing returns 0 in any case, which
  is all the header tests.
\<close>

definition MultiByteToWideChar :: "string \<Rightarrow> int \<Rightarrow> nat + wstring" where
  "MultiByteToWideChar src cbMultiByte =
     (let out =
        (if 0 < cbMultiByte then utf8_to_utf16 (take (nat cbMultiByte) src)
         else if cbMultiByte = - 1
           then utf8_to_utf16 (takeWhile (\<lambda>c. c \<noteq> CHR 0x00) src @ [CHR 0x00])
         else [])
      in if out = [] \<or> INT_MAX < length out then Inl ERROR_INVALID_PARAMETER else Inr out)"

text \<open>
  Modelled from the spec: the platform primitive behind \<^verbatim>\<open>wideToUtf8\<close>, the reverse
  transcoder over the first \<open>cchWideChar\<close> code units, with the same conventions.
\<close>

definition WideCharToMultiByte :: "wstring \<Rightarrow> int \<Rightarrow> nat + string" where
  "WideCharToMultiByte src cchWideChar =
     (let out =
        (if 0 < cchWideChar then utf16_to_utf8 (take (nat cchWideChar) src)
         else if cchWideChar = - 1 then utf16_to_utf8 (takeWhile (\<lambda>u. u \<noteq> 0) src @ [0])
         else [])
      in if out = [] \<or> INT_MAX < length out then Inl ERROR_INVALID_PARAMETER else Inr out)"

section \<open>Encoding helpers\<close>

definition utf8ToWide :: "string \<Rightarrow> exn + wstring" where
  "utf8ToWide utf8 =
     (if utf8 = [] then Inr []
      else case MultiByteToWideChar utf8 (static_cast_int (length utf8)) of
             Inl err \<Rightarrow> Inl (runtime_error (''UTF8 to wide conversion failed: '' @ to_string err))
           | Inr wide \<Rightarrow> Inr wide)"

definition wideToUtf8 :: "wstring \<Rightarrow> exn + string" where
  "wideToUtf8 wide =
     (if wide = [] then Inr []
      else case WideCharToMultiByte wide (static_cast_int (length wide)) of
             Inl err \<Rightarrow> Inl (runtime_error (''Wide to UTF8 conversion failed: '' @ to_string err))
           | Inr utf8 \<Rightarrow> Inr utf8)"

section \<open>Filter-string builder\<close>

text \<open>\<^verbatim>\<open>std::string::find(ch)\<close>: the first position of a character, \<open>None\<close> for \<^verbatim>\<open>npos\<close>.\<close>

fun find_char :: "'a \<Rightarrow> 'a list \<Rightarrow> nat option" where
  "find_char c [] = None"
| "find_char c (x # xs) = (if x = c then Some 0 else map_option Suc (find_char c xs))"

definition filter_format_message :: "string \<Rightarrow> string" where
  "filter_format_message f =
     ''Invalid filter format: '' @ [CHR 0x27] @ f @ [CHR 0x27] @ ''. Use '' @ [CHR 0x27]
       @ ''description|filter pattern'' @ [CHR 0x27] @ '' (e.g., '' @ [CHR 0x27]
       @ ''Text Files(*.txt)|*.txt'' @ [CHR 0x27] @ '')''"

text \<open>
  The loop of \<^verbatim>\<open>buildFilter\<close> over the entries, \<open>filterStr\<close> being what has been
  appended so far. The description is converted before the pattern, and a failed
  conversion leaves the loop at once.
\<close>

fun buildFilter_loop :: "string list \<Rightarrow> wstring \<Rightarrow> exn + wstring" where
  "buildFilter_loop [] filterStr = Inr filterStr"
| "buildFilter_loop (f # fs) filterStr =
     (case find_char CHR ''|'' f of
        None \<Rightarrow> Inl (invalid_argument (filter_format_message f))
      | Some pipePos \<Rightarrow>
          (case utf8ToWide (take pipePos f) of
             Inl e \<Rightarrow> Inl e
           | Inr desc \<Rightarrow>
               (case utf8ToWide (drop (pipePos + 1) f) of
                  Inl e \<Rightarrow> Inl e
                | Inr pattern \<Rightarrow> buildFilter_loop fs (filterStr @ desc @ [0] @ pattern @ [0]))))"

definition buildFilter :: "string list \<Rightarrow> exn + wstring" where
  "buildFilter filters =
     (case buildFilter_loop filters [] of
        Inl e \<Rightarrow> Inl e
      | Inr filterStr \<Rightarrow> Inr (filterStr @ [0]))"

text \<open>What the platform reads through \<^verbatim>\<open>c_str()\<close>: the string and its terminator.\<close>

definition c_str :: "wstring \<Rightarrow> wstring" where
  "c_str s = s @ [0]"

section \<open>Well-formed UTF-8\<close>

text \<open>
  A byte string is valid UTF-8 when it is a sequence of well-formed byte sequences
  (shortest form, no surrogates, nothing above U+10FFFF).
\<close>

fun valid_utf8_bytes :: "nat list \<Rightarrow> bool" where
  "valid_utf8_bytes [] = True"
| "valid_utf8_bytes (b # bs) =
     (case utf8_next (b # bs) of
        Some (c, n) \<Rightarrow> valid_utf8_bytes (drop (n - 1) bs)
      | None \<Rightarrow> False)"

definition valid_utf8 :: "string \<Rightarrow> bool" where
  "valid_utf8 s = valid_utf8_bytes (map of_char s)"

section \<open>The filter buffer as the specification words it\<close>

text \<open>
  Section 4.2: each entry is split on its first \<^verbatim>\<open>|\<close> into label and pattern, each of
  the two is followed by a terminator, and one more terminator ends the buffer.
\<close>

definition spec_filter_label :: "string \<Rightarrow> string" where
  "spec_filter_label f = takeWhile (\<lambda>c. c \<noteq> CHR ''|'') f"

definition spec_filter_pattern :: "string \<Rightarrow> string" where
  "spec_filter_pattern f = tl (dropWhile (\<lambda>c. c \<noteq> CHR ''|'') f)"

definition spec_filter_entry :: "string \<Rightarrow> wstring" where
  "spec_filter_entry f =
     utf8_to_utf16 (spec_filter_label f) @ [0] @ utf8_to_utf16 (spec_filter_pattern f) @ [0]"

definition spec_buildFilter :: "string list \<Rightarrow> exn + wstring" where
  "spec_buildFilter filters =
     (case List.find (\<lambda>f. CHR ''|'' \<notin> set f) filters of
        Some f \<Rightarrow> Inl (invalid_argument (filter_format_message f))
      | None \<Rightarrow> Inr (concat (map spec_filter_entry filters) @ [0]))"

section \<open>File pickers\<close>

text \<open>Running one step after another, an exception ending the run.\<close>

definition bind_exn :: "exn + 'a \<Rightarrow> ('a \<Rightarrow> exn + 'b) \<Rightarrow> exn + 'b" where
  "bind_exn r k = (case r of Inl e \<Rightarrow> Inl e | Inr v \<Rightarrow> k v)"

text \<open>
  The request handed to the native file dialog, with the fields the header sets. A null
  pointer is \<open>None\<close>; \<open>lpstrFile\<close> is the content of the path buffer.
\<close>

datatype ofn_flag =
  OFN_FILEMUSTEXIST | OFN_PATHMUSTEXIST | OFN_NOCHANGEDIR | OFN_EXPLORER
  | OFN_ALLOWMULTISELECT | OFN_OVERWRITEPROMPT

type_synonym HWND = nat

record OPENFILENAMEW =
  hwndOwner :: HWND
  lpstrFilter :: wstring
  lpstrFile :: wstring
  nMaxFile :: nat
  lpstrInitialDir :: "wstring option"
  lpstrDefExt :: "wstring option"
  lpstrTitle :: "wstring option"
  Flags :: "ofn_flag list"

text \<open>
  What the platform answers to one dialog call: the call's truth value, the path buffer
  as the dialog left it, and the code \<^verbatim>\<open>CommDlgExtendedError\<close> reports afterwards.
\<close>

record dialog_reply =
  succeeded :: bool
  file_buffer :: wstring
  extended_error :: DWORD

text \<open>
  \<^verbatim>\<open>wcscpy_s(dst, n, src)\<close> for a source shorter than \<open>n\<close>: the source up to its
  first 0 and a terminator, the rest of the destination as it was.
\<close>

definition wcscpy_s :: "wstring \<Rightarrow> wstring \<Rightarrow> wstring" where
  "wcscpy_s dst src =
     c_str_value src @ [0] @ drop (length (c_str_value src) + 1) dst"

text \<open>
  The path buffer before the call: \<open>bufsize\<close> zeros, and the default file name copied in
  when there is one. A name of \<open>limit\<close> code units or more is refused; \<open>limit\<close> is
  \<^verbatim>\<open>MAX_PATH_LEN\<close> for the single pickers and, for the multi-select picker, which
  compares the size in bytes with \<^verbatim>\<open>BUFFER_SIZE\<close>, half of \<^verbatim>\<open>BUFFER_SIZE\<close>.
\<close>

definition initial_path_buffer :: "nat \<Rightarrow> nat \<Rightarrow> string \<Rightarrow> exn + wstring" where
  "initial_path_buffer bufsize limit defaultFileName =
     (if defaultFileName \<noteq> [] then
        bind_exn (utf8ToWide defaultFileName) (\<lambda>defaultWide.
          if limit \<le> length defaultWide
          then Inl (runtime_error ''Default file name is too long'')
          else Inr (wcscpy_s (replicate bufsize 0) defaultWide))
      else Inr (replicate bufsize 0))"

text \<open>A converted string behind a pointer that stays null for the empty string.\<close>

definition optional_wide :: "string \<Rightarrow> exn + wstring option" where
  "optional_wide s =
     (if s \<noteq> [] then bind_exn (utf8ToWide s) (\<lambda>w. Inr (Some w)) else Inr None)"

text \<open>
  The preparation the three pickers share word for word, but for the buffer size, the
  limit on the default name and the flags: everything before the native call.
\<close>

definition ofn_request ::
  "nat \<Rightarrow> nat \<Rightarrow> ofn_flag list \<Rightarrow> string list \<Rightarrow> string \<Rightarrow> string \<Rightarrow> string \<Rightarrow> string \<Rightarrow> HWND
     \<Rightarrow> exn + OPENFILENAMEW" where
  "ofn_request bufsize limit flags filters title initialDir defaultFileName defaultExt parentHWND =
     bind_exn (buildFilter filters) (\<lambda>filter.
     bind_exn (utf8ToWide title) (\<lambda>wtitle.
     bind_exn (initial_path_buffer bufsize limit defaultFileName) (\<lambda>filePath.
     bind_exn (optional_wide initialDir) (\<lambda>initialDirPtr.
     bind_exn (optional_wide defaultExt) (\<lambda>defaultExtPtr.
       Inr \<lparr> hwndOwner = parentHWND,
             lpstrFilter = filter,
             lpstrFile = filePath,
             nMaxFile = bufsize,
             lpstrInitialDir = initialDirPtr,
             lpstrDefExt = defaultExtPtr,
             lpstrTitle = (if title \<noteq> [] then Some wtitle else None),
             Flags = flags \<rparr>)))))"

definition MAX_PATH_LEN :: nat where
  "MAX_PATH_LEN = 4096"

definition BUFFER_SIZE :: nat where
  "BUFFER_SIZE = 65536"

definition open_request ::
  "string list \<Rightarrow> string \<Rightarrow> string \<Rightarrow> string \<Rightarrow> string \<Rightarrow> HWND \<Rightarrow> exn + OPENFILENAMEW" where
  "open_request =
     ofn_request MAX_PATH_LEN MAX_PATH_LEN
       [OFN_FILEMUSTEXIST, OFN_PATHMUSTEXIST, OFN_NOCHANGEDIR, OFN_EXPLORER]"

definition save_request ::
  "string list \<Rightarrow> string \<Rightarrow> string \<Rightarrow> string \<Rightarrow> string \<Rightarrow> HWND \<Rightarrow> exn + OPENFILENAMEW" where
  "save_request =
     ofn_request MAX_PATH_LEN MAX_PATH_LEN
       [OFN_OVERWRITEPROMPT, OFN_PATHMUSTEXIST, OFN_NOCHANGEDIR, OFN_EXPLORER]"

definition multi_request ::
  "string list \<Rightarrow> string \<Rightarrow> string \<Rightarrow> string \<Rightarrow> string \<Rightarrow> HWND \<Rightarrow> exn + OPENFILENAMEW" where
  "multi_request =
     ofn_request BUFFER_SIZE (BUFFER_SIZE div 2)
       [OFN_FILEMUSTEXIST, OFN_PATHMUSTEXIST, OFN_NOCHANGEDIR, OFN_EXPLORER,
        OFN_ALLOWMULTISELECT]"

text \<open>
  After a dialog call that reported failure: a non-zero extended error is raised with
  its decimal digits in the message, a zero one is the cancellation.
\<close>

definition dialog_failed :: "string \<Rightarrow> DWORD \<Rightarrow> 'a \<Rightarrow> exn + 'a" where
  "dialog_failed what err cancelled =
     (if err \<noteq> 0 then Inl (runtime_error (what @ to_string (unat err))) else Inr cancelled)"

definition getOpenFileName ::
  "string list \<Rightarrow> string \<Rightarrow> string \<Rightarrow> string \<Rightarrow> string \<Rightarrow> HWND
     \<Rightarrow> (OPENFILENAMEW \<Rightarrow> dialog_reply) \<Rightarrow> exn + string" where
  "getOpenFileName filters title initialDir defaultFileName defaultExt parentHWND GetOpenFileNameW =
     bind_exn (open_request filters title initialDir defaultFileName defaultExt parentHWND)
       (\<lambda>ofn. let reply = GetOpenFileNameW ofn in
          if \<not> succeeded reply
          then dialog_failed ''Open file dialog failed: '' (extended_error reply) []
          else wideToUtf8 (c_str_value (file_buffer reply)))"

definition getSaveFileName ::
  "string list \<Rightarrow> string \<Rightarrow> string \<Rightarrow> string \<Rightarrow> string \<Rightarrow> HWND
     \<Rightarrow> (OPENFILENAMEW \<Rightarrow> dialog_reply) \<Rightarrow> exn + string" where
  "getSaveFileName filters title initialDir defaultFileName defaultExt parentHWND GetSaveFileNameW =
     bind_exn (save_request filters title initialDir defaultFileName defaultExt parentHWND)
       (\<lambda>ofn. let reply = GetSaveFileNameW ofn in
          if \<not> succeeded reply
          then dialog_failed ''Save file dialog failed: '' (extended_error reply) []
          else wideToUtf8 (c_str_value (file_buffer reply)))"

subsection \<open>The multi-select buffer\<close>

text \<open>
  \<^verbatim>\<open>std::wstring s = ptr\<close> for a pointer into the buffer: the units from \<open>ptr\<close> to the
  next 0. Where no 0 follows, the read leaves the buffer and the behaviour is undefined
  (\<open>None\<close>), as is reading \<^verbatim>\<open>*ptr\<close> past the end.
\<close>

definition wstring_at :: "wstring \<Rightarrow> nat \<Rightarrow> wstring option" where
  "wstring_at buf ptr =
     (if 0 \<in> set (drop ptr buf) then Some (takeWhile (\<lambda>u. u \<noteq> 0) (drop ptr buf)) else None)"

text \<open>The separator \<^verbatim>\<open>L"\\"\<close>: one backslash.\<close>

definition path_separator :: wstring where
  "path_separator = [0x5C]"

text \<open>The \<^verbatim>\<open>while (*ptr != L'\0')\<close> loop over the file names.\<close>

function parse_file_names ::
  "wstring \<Rightarrow> wstring \<Rightarrow> nat \<Rightarrow> string list \<Rightarrow> (exn + string list) option" where
  "parse_file_names buf directory ptr selectedFiles =
     (if length buf \<le> ptr then None
      else if buf ! ptr = 0 then Some (Inr selectedFiles)
      else
        (case wstring_at buf ptr of
           None \<Rightarrow> None
         | Some filename \<Rightarrow>
             (case wideToUtf8 (directory @ path_separator @ filename) of
                Inl e \<Rightarrow> Some (Inl e)
              | Inr fullPath \<Rightarrow>
                  parse_file_names buf directory (ptr + (length filename + 1))
                    (selectedFiles @ [fullPath]))))"
  by pat_completeness auto
termination
  by (relation "measure (\<lambda>(buf, directory, ptr, selectedFiles). length buf - ptr)") auto

declare parse_file_names.simps [simp del]

text \<open>Lines 499 to 516: the selection read from the buffer the dialog filled.\<close>

definition parse_selected_files :: "wstring \<Rightarrow> (exn + string list) option" where
  "parse_selected_files buf =
     (case wstring_at buf 0 of
        None \<Rightarrow> None
      | Some directory \<Rightarrow>
          (let ptr = length directory + 1
           in if length buf \<le> ptr then None
              else if buf ! ptr = 0 then
                (case wideToUtf8 directory of
                   Inl e \<Rightarrow> Some (Inl e)
                 | Inr path \<Rightarrow> Some (Inr [path]))
              else parse_file_names buf directory ptr []))"

text \<open>
  The multi-select picker. \<open>None\<close> is undefined behaviour while reading the buffer;
  \<open>Some\<close> holds what the call raises or returns.
\<close>

definition getOpenMultipleFileNames ::
  "string list \<Rightarrow> string \<Rightarrow> string \<Rightarrow> string \<Rightarrow> string \<Rightarrow> HWND
     \<Rightarrow> (OPENFILENAMEW \<Rightarrow> dialog_reply) \<Rightarrow> (exn + string list) option" where
  "getOpenMultipleFileNames filters title initialDir defaultFileName defaultExt parentHWND
       GetOpenFileNameW =
     (case multi_request filters title initialDir defaultFileName defaultExt parentHWND of
        Inl e \<Rightarrow> Some (Inl e)
      | Inr ofn \<Rightarrow>
          (let reply = GetOpenFileNameW ofn in
             if \<not> succeeded reply
             then Some (dialog_failed ''Open file dialog failed: '' (extended_error reply) [])
             else parse_selected_files (file_buffer reply)))"

text \<open>
  A string literal of the logic cannot hold a backslash; the examples write a path by its
  components, \<open>windows_path [''C:'', ''dir'', ''a.txt'']\<close> for \<^verbatim>\<open>C:\dir\a.txt\<close>.
\<close>

definition windows_path :: "string list \<Rightarrow> string" where
  "windows_path cs =
     (case cs of [] \<Rightarrow> [] | c # rest \<Rightarrow> foldl (\<lambda>p x. p @ CHR 0x5C # x) c rest)"

text \<open>The number a string of decimal digits denotes, to read a code back from a message.\<close>

definition decimal_value :: "string \<Rightarrow> nat" where
  "decimal_value s = foldl (\<lambda>a c. 10 * a + (of_char c - of_char CHR ''0'')) 0 s"

section \<open>Hand-built dialogs\<close>

text \<open>
  The messages the two window procedures tell apart; every other message is
  \<open>WM_OTHER\<close> and goes to the default procedure. \<open>WM_COMMAND\<close> carries its
  \<^verbatim>\<open>wParam\<close>, whose low word names the control.
\<close>

datatype window_message =
  WM_CREATE | WM_SIZE | WM_COMMAND nat | WM_CLOSE | WM_DESTROY
  | WM_CTLCOLOREDIT | WM_CTLCOLORSTATIC | WM_CTLCOLORBTN | WM_ERASEBKGND | WM_OTHER

definition LOWORD :: "nat \<Rightarrow> nat" where
  "LOWORD w = w mod 65536"

text \<open>The platform calls of a dialog function, in the order they are made.\<close>

datatype platform_call =
  RegisterClassExW | CreateWindowExW | ShowWindow | UpdateWindow
  | DispatchMessageW window_message | UnregisterClassW

text \<open>
  What the platform does during one call of a dialog function: whether the window class
  is registered, whether the window is created, and the messages \<^verbatim>\<open>GetMessageW\<close>
  retrieves for the window, in order, each with the text the input control (if there is
  one) holds when the message is handled.
\<close>

record dialog_env =
  class_registered :: bool
  window_created :: bool
  messages :: "(window_message \<times> wstring) list"

text \<open>
  The loop \<^verbatim>\<open>while (GetMessageW(...)) { TranslateMessage; DispatchMessageW; }\<close>. A
  procedure that handles \<open>WM_DESTROY\<close> posts the quit message, which ends the loop; with
  no message left and no quit posted, \<^verbatim>\<open>GetMessageW\<close> waits for ever (\<open>None\<close>). The
  result holds the final state and the messages dispatched.
\<close>

fun message_loop ::
  "('m \<Rightarrow> 's \<Rightarrow> 's) \<Rightarrow> ('s \<Rightarrow> bool) \<Rightarrow> 'm list \<Rightarrow> 's \<Rightarrow> 'm list \<Rightarrow> ('s \<times> 'm list) option" where
  "message_loop proc quit [] s dispatched = None"
| "message_loop proc quit (m # ms) s dispatched =
     (let s' = proc m s
      in if quit s' then Some (s', dispatched @ [m])
         else message_loop proc quit ms s' (dispatched @ [m]))"

subsection \<open>Message box\<close>

definition GCOMMMDLG_BTN_START :: int where
  "GCOMMMDLG_BTN_START = 2000"

record msgbox_state =
  g_selectedId :: int
  msgbox_quit_posted :: bool

text \<open>
  \<^verbatim>\<open>DestroyWindow\<close> sends \<open>WM_DESTROY\<close> to the procedure before it returns, and the
  procedure answers with \<^verbatim>\<open>PostQuitMessage\<close>.
\<close>

definition msgbox_DestroyWindow :: "msgbox_state \<Rightarrow> msgbox_state" where
  "msgbox_DestroyWindow s = s\<lparr>msgbox_quit_posted := True\<rparr>"

definition MessageBoxDialogProc ::
  "(int \<times> wstring) list \<Rightarrow> window_message \<times> wstring \<Rightarrow> msgbox_state \<Rightarrow> msgbox_state" where
  "MessageBoxDialogProc g_options msg s =
     (case fst msg of
        WM_COMMAND wParam \<Rightarrow>
          (let btnId = int (LOWORD wParam)
           in if GCOMMMDLG_BTN_START \<le> btnId
                 \<and> btnId < int_plus GCOMMMDLG_BTN_START (static_cast_int (length g_options))
              then msgbox_DestroyWindow
                     (s\<lparr>g_selectedId := fst (g_options ! nat (btnId - GCOMMMDLG_BTN_START))\<rparr>)
              else s)
      | WM_CLOSE \<Rightarrow> msgbox_DestroyWindow (s\<lparr>g_selectedId := 0\<rparr>)
      | WM_DESTROY \<Rightarrow> s\<lparr>msgbox_quit_posted := True\<rparr>
      | _ \<Rightarrow> s)"

text \<open>The loop that fills \<open>g_options\<close>; a label that does not convert ends it.\<close>

fun convert_options :: "(int \<times> string) list \<Rightarrow> exn + (int \<times> wstring) list" where
  "convert_options [] = Inr []"
| "convert_options (opt # rest) =
     bind_exn (utf8ToWide (snd opt)) (\<lambda>label.
     bind_exn (convert_options rest) (\<lambda>g_options. Inr ((fst opt, label) # g_options)))"

text \<open>
  What a call of a dialog function comes to: the value returned, \<open>None\<close> while the
  call waits for a message that never comes, and the platform calls made.
\<close>

record 'a dialog_outcome =
  returned :: "'a option"
  calls :: "platform_call list"

definition messageBox ::
  "string \<Rightarrow> string \<Rightarrow> (int \<times> string) list \<Rightarrow> HWND \<Rightarrow> dialog_env \<Rightarrow> exn + int dialog_outcome" where
  "messageBox title message options hParent env =
     (if options = [] then Inr \<lparr>returned = Some (- 1), calls = []\<rparr>
      else
        bind_exn (convert_options options) (\<lambda>g_options.
        bind_exn (utf8ToWide message) (\<lambda>g_msgContent.
        bind_exn (utf8ToWide title) (\<lambda>g_boxTitle.
          let s0 = \<lparr>g_selectedId = 0, msgbox_quit_posted = False\<rparr>
          in if \<not> class_registered env
             then Inr \<lparr>returned = Some 0, calls = [RegisterClassExW]\<rparr>
             else if window_created env then
               (case message_loop (MessageBoxDialogProc g_options) msgbox_quit_posted
                       (messages env) s0 [] of
                  None \<Rightarrow>
                    Inr \<lparr>returned = None,
                         calls = [RegisterClassExW, CreateWindowExW, ShowWindow, UpdateWindow]
                           @ map (DispatchMessageW \<circ> fst) (messages env)\<rparr>
                | Some (s, dispatched) \<Rightarrow>
                    Inr \<lparr>returned = Some (g_selectedId s),
                         calls = [RegisterClassExW, CreateWindowExW, ShowWindow, UpdateWindow]
                           @ map (DispatchMessageW \<circ> fst) dispatched @ [UnregisterClassW]\<rparr>)
             else
               Inr \<lparr>returned = Some (g_selectedId s0),
                    calls = [RegisterClassExW, CreateWindowExW, UnregisterClassW]\<rparr>))))"



subsection \<open>Prompt dialog\<close>

definition GCOMMMDLG_IDOK :: nat where
  "GCOMMMDLG_IDOK = 1003"

definition GCOMMMDLG_IDCANCEL :: nat where
  "GCOMMMDLG_IDCANCEL = 1004"

text \<open>
  The process-wide variables of the prompt dialog: \<open>g_inputText\<close> is the C string in
  the 256-unit array, \<open>g_did_confirm\<close> the flag, which no call resets.
\<close>

record prompt_state =
  g_inputText :: wstring
  g_did_confirm :: bool
  prompt_quit_posted :: bool

definition prompt_DestroyWindow :: "prompt_state \<Rightarrow> prompt_state" where
  "prompt_DestroyWindow s = s\<lparr>prompt_quit_posted := True\<rparr>"

text \<open>
  \<^verbatim>\<open>GetDlgItemTextW(hDlg, id, buffer, cchMax)\<close>: the control's text, cut to
  \<open>cchMax - 1\<close> units to leave room for the terminator.
\<close>

definition GetDlgItemTextW :: "wstring \<Rightarrow> nat \<Rightarrow> wstring" where
  "GetDlgItemTextW text cchMax = take (cchMax - 1) (c_str_value text)"

definition PromptDialogProc :: "window_message \<times> wstring \<Rightarrow> prompt_state \<Rightarrow> prompt_state" where
  "PromptDialogProc msg s =
     (case fst msg of
        WM_COMMAND wParam \<Rightarrow>
          if LOWORD wParam = GCOMMMDLG_IDOK then
            prompt_DestroyWindow
              (s\<lparr>g_inputText := GetDlgItemTextW (snd msg) 256, g_did_confirm := True\<rparr>)
          else if LOWORD wParam = GCOMMMDLG_IDCANCEL then
            prompt_DestroyWindow (s\<lparr>g_inputText := [], g_did_confirm := False\<rparr>)
          else s
      | WM_CLOSE \<Rightarrow> prompt_DestroyWindow (s\<lparr>g_inputText := [], g_did_confirm := False\<rparr>)
      | WM_DESTROY \<Rightarrow> s\<lparr>prompt_quit_posted := True\<rparr>
      | _ \<Rightarrow> s)"

text \<open>
  The prompt dialog. \<open>before\<close> holds \<open>g_did_confirm\<close> as the last call left it and
  what the fresh array behind \<open>g_inputText\<close> happens to contain. The value returned is
  the truth value and the new content of \<open>output\<close>; an exception leaves \<open>output\<close>
  as it was.
\<close>

definition promptDialog ::
  "string \<Rightarrow> string \<Rightarrow> string \<Rightarrow> HWND \<Rightarrow> prompt_state \<Rightarrow> dialog_env
     \<Rightarrow> exn + (bool \<times> string) dialog_outcome" where
  "promptDialog title message defaultContent hParent before env =
     bind_exn (utf8ToWide message) (\<lambda>g_message.
     bind_exn (utf8ToWide defaultContent) (\<lambda>g_defalutContent.
     bind_exn (utf8ToWide title) (\<lambda>wtitle.
       let s0 = before\<lparr>prompt_quit_posted := False\<rparr>;
           opened = [RegisterClassExW, CreateWindowExW];
           finish = (\<lambda>s made.
             if \<not> g_did_confirm s
             then Inr \<lparr>returned = Some (False, []), calls = made @ [UnregisterClassW]\<rparr>
             else bind_exn (wideToUtf8 (g_inputText s)) (\<lambda>output.
                    Inr \<lparr>returned = Some (True, output), calls = made @ [UnregisterClassW]\<rparr>))
       in if window_created env then
            (case message_loop PromptDialogProc prompt_quit_posted (messages env) s0 [] of
               None \<Rightarrow>
                 Inr \<lparr>returned = None,
                      calls = opened @ [ShowWindow, UpdateWindow]
                        @ map (DispatchMessageW \<circ> fst) (messages env)\<rparr>
             | Some (s, dispatched) \<Rightarrow>
                 finish s (opened @ [ShowWindow, UpdateWindow]
                   @ map (DispatchMessageW \<circ> fst) dispatched))
          else finish s0 opened)))"

text \<open>The messages that end the prompt dialog.\<close>

definition ends_prompt :: "window_message \<Rightarrow> bool" where
  "ends_prompt m =
     (case m of
        WM_COMMAND wParam \<Rightarrow>
          LOWORD wParam = GCOMMMDLG_IDOK \<or> LOWORD wParam = GCOMMMDLG_IDCANCEL
      | WM_CLOSE \<Rightarrow> True
      | WM_DESTROY \<Rightarrow> True
      | _ \<Rightarrow> False)"

section \<open>Font file lookup\<close>


text \<open>
  A value of a registry key: its name, its type, and its data, the bytes as they are
  stored. An open key is the list of its values in the order of the enumeration; \<open>None\<close>
  is a key that \<^verbatim>\<open>RegOpenKeyExW\<close> fails to open.
\<close>

datatype reg_type = REG_NONE | REG_SZ | REG_EXPAND_SZ | REG_BINARY | REG_DWORD | REG_MULTI_SZ














subsection \<open>The lookup as the specification words it\<close>










subsection \<open>Values for the examples\<close>




section \<open>Font and colour pickers\<close>




text \<open>
  The colour of the header, four bytes, and the platform's \<^verbatim>\<open>COLORREF\<close> with the macros
  of its headers that pack and unpack one.
\<close>

datatype SDL_Color = SDL_Color "8 word" "8 word" "8 word" "8 word"

type_synonym COLORREF = "32 word"

definition RGB :: "8 word \<Rightarrow> 8 word \<Rightarrow> 8 word \<Rightarrow> COLORREF" where
  "RGB r g b = ucast r OR push_bit 8 (ucast g) OR push_bit 16 (ucast b)"

definition GetRValue :: "COLORREF \<Rightarrow> 8 word" where
  "GetRValue rgb = ucast rgb"

definition GetGValue :: "COLORREF \<Rightarrow> 8 word" where
  "GetGValue rgb = ucast (drop_bit 8 (ucast rgb :: 16 word))"

definition GetBValue :: "COLORREF \<Rightarrow> 8 word" where
  "GetBValue rgb = ucast (drop_bit 16 rgb)"

datatype cc_flag = CC_RGBINIT | CC_FULLOPEN

record CHOOSECOLORW =
  cc_hwndOwner :: HWND
  rgbResult :: COLORREF
  lpCustColors :: "COLORREF list"
  cc_Flags :: "cc_flag list"

text \<open>
  What the platform answers to \<^verbatim>\<open>ChooseColorW\<close>: the call's truth value, the request
  as the call left it, and the extended error.
\<close>

record color_reply =
  color_chosen :: bool
  cc_after :: CHOOSECOLORW
  color_extended_error :: DWORD

text \<open>
  \<^verbatim>\<open>chooseColor\<close>, with the content of \<open>selectedColor\<close> when the call ends and the
  exception, if one ended it. \<open>customColors\<close> is the static array of the function.
\<close>

definition chooseColor ::
  "SDL_Color \<Rightarrow> HWND \<Rightarrow> COLORREF list \<Rightarrow> (CHOOSECOLORW \<Rightarrow> color_reply)
     \<Rightarrow> SDL_Color \<times> exn option" where
  "chooseColor selectedColor hwndParent customColors ChooseColorW =
     (case selectedColor of
        SDL_Color r g b a \<Rightarrow>
          (let cc = \<lparr>cc_hwndOwner = hwndParent, rgbResult = RGB r g b,
                      lpCustColors = customColors, cc_Flags = [CC_RGBINIT, CC_FULLOPEN]\<rparr>;
               reply = ChooseColorW cc
           in if \<not> color_chosen reply \<and> color_extended_error reply \<noteq> 0 then
                (selectedColor, Some (runtime_error
                   (''Choose color dialog failed: ''
                      @ to_string (unat (color_extended_error reply)))))
              else
                (SDL_Color (GetRValue (rgbResult (cc_after reply)))
                           (GetGValue (rgbResult (cc_after reply)))
                           (GetBValue (rgbResult (cc_after reply))) 255, None)))"

section \<open>Facts about the transcoder\<close>

lemma digits64:
  fixes q r :: nat
  assumes "r < 64"
  shows "(q * 64 + r) div 64 = q" and "(q * 64 + r) mod 64 = r"
  using assms by simp_all

lemma split3:
  fixes q1 q2 r c :: nat
  assumes "q1 < 64" "r < 64" and c: "c = q2 * 4096 + q1 * 64 + r"
  shows "c div 4096 = q2" and "c div 64 mod 64 = q1" and "c mod 64 = r"
proof -
  have e: "c = (q2 * 64 + q1) * 64 + r" by (simp add: c)
  show "c mod 64 = r" by (simp only: e digits64 [OF assms(2)])
  have d: "c div 64 = q2 * 64 + q1" by (simp only: e digits64 [OF assms(2)])
  show "c div 64 mod 64 = q1" by (simp only: d digits64 [OF assms(1)])
  have "c div 4096 = c div 64 div 64" by (simp add: div_mult2_eq)
  then show "c div 4096 = q2" by (simp only: d digits64 [OF assms(1)])
qed

lemma split4:
  fixes q1 q2 q3 r c :: nat
  assumes "q2 < 64" "q1 < 64" "r < 64" and c: "c = q3 * 262144 + q2 * 4096 + q1 * 64 + r"
  shows "c div 262144 = q3" and "c div 4096 mod 64 = q2" and "c div 64 mod 64 = q1"
    and "c mod 64 = r"
proof -
  have e: "c = (q3 * 4096 + q2 * 64 + q1) * 64 + r" by (simp add: c)
  show "c mod 64 = r" by (simp only: e digits64 [OF assms(3)])
  have d: "c div 64 = q3 * 4096 + q2 * 64 + q1" by (simp only: e digits64 [OF assms(3)])
  from split3 [OF assms(1) assms(2) d]
  have s: "c div 64 div 4096 = q3" "c div 64 div 64 mod 64 = q2" "c div 64 mod 64 = q1" .
  show "c div 64 mod 64 = q1" by (rule s)
  have "c div 4096 = c div 64 div 64" by (simp add: div_mult2_eq)
  then show "c div 4096 mod 64 = q2" using s(2) by simp
  have "c div 262144 = c div 64 div 4096" by (simp add: div_mult2_eq)
  then show "c div 262144 = q3" using s(1) by simp
qed

text \<open>The four shapes of a well-formed sequence.\<close>

lemma utf8_next_cases:
  assumes "utf8_next bs = Some (c, n)"
  obtains (one) r where "bs = c # r" "c < 0x80" "n = 1"
  | (two) b0 b1 r where "bs = b0 # b1 # r" "0xC2 \<le> b0" "b0 < 0xE0" "is_continuation b1"
      "c = (b0 - 0xC0) * 64 + (b1 - 0x80)" "n = 2"
  | (three) b0 b1 b2 r where "bs = b0 # b1 # b2 # r" "0xE0 \<le> b0" "b0 < 0xF0"
      "is_continuation b1" "is_continuation b2"
      "c = (b0 - 0xE0) * 4096 + (b1 - 0x80) * 64 + (b2 - 0x80)" "0x800 \<le> c" "is_scalar c" "n = 3"
  | (four) b0 b1 b2 b3 r where "bs = b0 # b1 # b2 # b3 # r" "0xF0 \<le> b0" "b0 < 0xF5"
      "is_continuation b1" "is_continuation b2" "is_continuation b3"
      "c = (b0 - 0xF0) * 262144 + (b1 - 0x80) * 4096 + (b2 - 0x80) * 64 + (b3 - 0x80)"
      "0x10000 \<le> c" "c \<le> 0x10FFFF" "n = 4"
proof (cases bs)
  case Nil
  with assms show ?thesis by simp
next
  case (Cons b0 r)
  show ?thesis
  proof (cases "b0 < 0x80")
    case True
    with assms Cons one show ?thesis by simp
  next
    case f1: False
    show ?thesis
    proof (cases "0xC2 \<le> b0 \<and> b0 < 0xE0")
      case True
      with assms Cons f1 two show ?thesis by (simp split: list.splits if_splits)
    next
      case f2: False
      show ?thesis
      proof (cases "0xE0 \<le> b0 \<and> b0 < 0xF0")
        case True
        with assms Cons f1 f2 three show ?thesis
          by (simp add: Let_def split: list.splits if_splits)
      next
        case f3: False
        show ?thesis
        proof (cases "0xF0 \<le> b0 \<and> b0 < 0xF5")
          case True
          with assms Cons f1 f2 f3 four show ?thesis
            by (simp add: Let_def split: list.splits if_splits)
        next
          case False
          with assms Cons f1 f2 f3 show ?thesis by simp
        qed
      qed
    qed
  qed
qed

lemma two_byte_value:
  assumes "0xC2 \<le> b0" "b0 < 0xE0" "is_continuation b1"
    and c: "c = (b0 - 0xC0) * 64 + (b1 - 0x80)"
  shows "0x80 \<le> c" and "c < 0x800" and "0xC0 + c div 64 = b0" and "0x80 + c mod 64 = b1"
proof -
  define q where "q = b0 - 0xC0"
  define d where "d = b1 - 0x80"
  have d: "d < 64" and b1: "b1 = 0x80 + d"
    using assms(3) unfolding d_def is_continuation_def by arith+
  have q: "2 \<le> q" "q < 32" and b0: "b0 = 0xC0 + q" using assms(1,2) unfolding q_def by arith+
  have e: "c = q * 64 + d" using c by (simp add: q_def d_def)
  show "0x80 \<le> c" "c < 0x800" unfolding e using d q by simp_all
  have "c div 64 = q" "c mod 64 = d" unfolding e using d by (rule digits64)+
  then show "0xC0 + c div 64 = b0" "0x80 + c mod 64 = b1" using b0 b1 by simp_all
qed

lemma three_byte_value:
  assumes "0xE0 \<le> b0" "b0 < 0xF0" "is_continuation b1" "is_continuation b2"
    and c: "c = (b0 - 0xE0) * 4096 + (b1 - 0x80) * 64 + (b2 - 0x80)"
  shows "c < 0x10000" and "0xE0 + c div 4096 = b0" and "0x80 + c div 64 mod 64 = b1"
    and "0x80 + c mod 64 = b2"
proof -
  define q where "q = b0 - 0xE0"
  define d1 where "d1 = b1 - 0x80"
  define d2 where "d2 = b2 - 0x80"
  have d: "d1 < 64" "d2 < 64" and b12: "b1 = 0x80 + d1" "b2 = 0x80 + d2"
    using assms(3,4) unfolding d1_def d2_def is_continuation_def by arith+
  have q: "q < 16" and b0: "b0 = 0xE0 + q" using assms(1,2) unfolding q_def by arith+
  have e: "c = q * 4096 + d1 * 64 + d2" using c by (simp add: q_def d1_def d2_def)
  show "c < 0x10000" unfolding e using d q by simp
  from split3 [OF d e]
  show "0xE0 + c div 4096 = b0" "0x80 + c div 64 mod 64 = b1" "0x80 + c mod 64 = b2"
    using b0 b12 by simp_all
qed

lemma four_byte_value:
  assumes "0xF0 \<le> b0" "is_continuation b1" "is_continuation b2" "is_continuation b3"
    and c: "c = (b0 - 0xF0) * 262144 + (b1 - 0x80) * 4096 + (b2 - 0x80) * 64 + (b3 - 0x80)"
  shows "0xF0 + c div 262144 = b0" and "0x80 + c div 4096 mod 64 = b1"
    and "0x80 + c div 64 mod 64 = b2" and "0x80 + c mod 64 = b3"
proof -
  define q where "q = b0 - 0xF0"
  define d1 where "d1 = b1 - 0x80"
  define d2 where "d2 = b2 - 0x80"
  define d3 where "d3 = b3 - 0x80"
  have d: "d1 < 64" "d2 < 64" "d3 < 64"
    and b123: "b1 = 0x80 + d1" "b2 = 0x80 + d2" "b3 = 0x80 + d3"
    using assms(2,3,4) unfolding d1_def d2_def d3_def is_continuation_def by arith+
  have b0: "b0 = 0xF0 + q" using assms(1) unfolding q_def by arith
  have e: "c = q * 262144 + d1 * 4096 + d2 * 64 + d3"
    using c by (simp add: q_def d1_def d2_def d3_def)
  from split4 [OF d e]
  show "0xF0 + c div 262144 = b0" "0x80 + c div 4096 mod 64 = b1"
    "0x80 + c div 64 mod 64 = b2" "0x80 + c mod 64 = b3"
    using b0 b123 by simp_all
qed

lemma utf8_next_length:
  assumes "utf8_next bs = Some (c, n)"
  shows "0 < n" and "n \<le> length bs"
  using assms by (cases rule: utf8_next_cases; simp)+

lemma utf8_next_scalar:
  assumes "utf8_next bs = Some (c, n)"
  shows "is_scalar c"
  using assms
proof (cases rule: utf8_next_cases)
  case (two b0 b1 r)
  from two_byte_value(2) [OF two(2-5)] show ?thesis by (simp add: is_scalar_def)
qed (simp_all add: is_scalar_def)

lemma utf8_next_units:
  assumes "utf8_next bs = Some (c, n)"
  shows "utf16_encode c \<noteq> []" and "length (utf16_encode c) \<le> n"
proof -
  show "utf16_encode c \<noteq> []" by (simp add: utf16_encode_def)
  from assms show "length (utf16_encode c) \<le> n"
  proof (cases rule: utf8_next_cases)
    case (two b0 b1 r)
    then show ?thesis by (simp add: utf16_encode_def)
  next
    case (three b0 b1 b2 r)
    from three_byte_value(1) [OF three(2-6)] three(9) show ?thesis
      by (simp add: utf16_encode_def)
  qed (simp_all add: utf16_encode_def)
qed

lemma utf8_next_encode:
  assumes "utf8_next bs = Some (c, n)"
  shows "utf8_encode c = take n bs"
  using assms
proof (cases rule: utf8_next_cases)
  case (one r)
  then show ?thesis by (simp add: utf8_encode_def)
next
  case (two b0 b1 r)
  from two_byte_value [OF two(2-5)] two(1,6) show ?thesis by (simp add: utf8_encode_def)
next
  case (three b0 b1 b2 r)
  from three_byte_value [OF three(2-6)] three(1,7,9) show ?thesis
    by (simp add: utf8_encode_def)
next
  case (four b0 b1 b2 b3 r)
  from four_byte_value [OF four(2) four(4-7)] four(1,8,10) show ?thesis
    by (simp add: utf8_encode_def)
qed

lemma utf8_decode_valid:
  assumes "valid_utf8_bytes bs"
  shows "concat (map utf8_encode (utf8_decode bs)) = bs \<and> list_all is_scalar (utf8_decode bs)"
  using assms
proof (induction bs rule: utf8_decode.induct)
  case 1
  show ?case by simp
next
  case (2 b bs)
  from "2.prems" obtain c n where nx: "utf8_next (b # bs) = Some (c, n)"
    and v: "valid_utf8_bytes (drop (n - 1) bs)"
    by (auto split: option.splits)
  from "2.IH"(2) [OF nx refl v]
  have ih: "concat (map utf8_encode (utf8_decode (drop (n - 1) bs))) = drop (n - 1) bs"
    "list_all is_scalar (utf8_decode (drop (n - 1) bs))" by simp_all
  have n: "0 < n" by (rule utf8_next_length [OF nx])
  then have dr: "drop (n - 1) bs = drop n (b # bs)" by (cases n) simp_all
  have dec: "utf8_decode (b # bs) = c # utf8_decode (drop (n - 1) bs)" using nx by simp
  have "concat (map utf8_encode (utf8_decode (b # bs))) = take n (b # bs) @ drop n (b # bs)"
    unfolding dec using ih(1) utf8_next_encode [OF nx] dr by simp
  then have "concat (map utf8_encode (utf8_decode (b # bs))) = b # bs"
    by (simp only: append_take_drop_id)
  moreover have "list_all is_scalar (utf8_decode (b # bs))"
    unfolding dec using ih(2) utf8_next_scalar [OF nx] by simp
  ultimately show ?case by simp
qed

lemma utf8_decode_units:
  "length (concat (map utf16_encode (utf8_decode bs))) \<le> length bs
   \<and> (bs \<noteq> [] \<longrightarrow> concat (map utf16_encode (utf8_decode bs)) \<noteq> [])"
proof (induction bs rule: utf8_decode.induct)
  case 1
  show ?case by simp
next
  case (2 b bs)
  show ?case
  proof (cases "utf8_next (b # bs)")
    case None
    with "2.IH"(1) show ?thesis
      by (simp add: utf16_encode_def REPLACEMENT_CHARACTER_def)
  next
    case (Some p)
    obtain c n where p: "p = (c, n)" by (cases p)
    with Some have nx: "utf8_next (b # bs) = Some (c, n)" by simp
    have dec: "utf8_decode (b # bs) = c # utf8_decode (drop (n - 1) bs)" using nx by simp
    from utf8_next_length [OF nx] have n: "0 < n" "n - 1 \<le> length bs" by simp_all
    from "2.IH"(2) [OF nx refl]
    have "length (concat (map utf16_encode (utf8_decode (drop (n - 1) bs)))) \<le> length bs - (n - 1)"
      by simp
    with utf8_next_units [OF nx] n show ?thesis unfolding dec by simp
  qed
qed

lemma utf16_decode_bmp:
  assumes "is_scalar c" "c < 0x10000"
  shows "utf16_decode (c # us) = c # utf16_decode us"
  using assms
  by (cases us) (auto simp: is_scalar_def is_high_surrogate_def is_low_surrogate_def)

lemma utf16_encode_pair:
  assumes "0x10000 \<le> c" "c \<le> 0x10FFFF"
  obtains h l where "utf16_encode c = [h, l]" "is_high_surrogate h" "is_low_surrogate l"
    "0x10000 + (h - 0xD800) * 1024 + (l - 0xDC00) = c"
proof -
  define d where "d = c - 0x10000"
  have c: "c = 0x10000 + d" and d: "d < 1024 * 1024" using assms unfolding d_def by arith+
  have q: "d div 1024 < 1024" using d by (simp add: less_mult_imp_div_less)
  have e: "utf16_encode c = [0xD800 + d div 1024, 0xDC00 + d mod 1024]"
    using assms by (simp add: utf16_encode_def d_def)
  have "is_high_surrogate (0xD800 + d div 1024)" using q by (simp add: is_high_surrogate_def)
  moreover have "is_low_surrogate (0xDC00 + d mod 1024)" by (simp add: is_low_surrogate_def)
  moreover have "0x10000 + (0xD800 + d div 1024 - 0xD800) * 1024 + (0xDC00 + d mod 1024 - 0xDC00) = c"
    by (simp add: c)
  ultimately show thesis using e that by blast
qed

lemma utf16_decode_encode:
  assumes "list_all is_scalar cs"
  shows "utf16_decode (concat (map utf16_encode cs)) = cs"
  using assms
proof (induction cs)
  case Nil
  show ?case by simp
next
  case (Cons c cs)
  then have ih: "utf16_decode (concat (map utf16_encode cs)) = cs" and sc: "is_scalar c"
    by simp_all
  show ?case
  proof (cases "c < 0x10000")
    case True
    then have "utf16_encode c = [c]" by (simp add: utf16_encode_def)
    then show ?thesis using ih utf16_decode_bmp [OF sc True] by simp
  next
    case False
    then have "0x10000 \<le> c" "c \<le> 0x10FFFF" using sc by (simp_all add: is_scalar_def)
    then obtain h l where "utf16_encode c = [h, l]" "is_high_surrogate h" "is_low_surrogate l"
      "0x10000 + (h - 0xD800) * 1024 + (l - 0xDC00) = c"
      by (rule utf16_encode_pair)
    then show ?thesis using ih by simp
  qed
qed

lemma utf16_encode_unit_bound:
  assumes "is_scalar c" "u \<in> set (utf16_encode c)"
  shows "u < 65536"
proof (cases "c < 0x10000")
  case True
  with assms show ?thesis by (simp add: utf16_encode_def)
next
  case False
  then have "0x10000 \<le> c" "c \<le> 0x10FFFF" using assms by (simp_all add: is_scalar_def)
  then obtain h l where "utf16_encode c = [h, l]" "is_high_surrogate h" "is_low_surrogate l"
      "0x10000 + (h - 0xD800) * 1024 + (l - 0xDC00) = c"
    by (rule utf16_encode_pair)
  with assms show ?thesis by (auto simp: is_high_surrogate_def is_low_surrogate_def)
qed

lemma utf8_encode_length:
  "0 < length (utf8_encode c)" "length (utf8_encode c) \<le> 4"
  "c < 0x10000 \<Longrightarrow> length (utf8_encode c) \<le> 3"
  by (simp_all add: utf8_encode_def)

lemma utf16_decode_bytes:
  assumes "\<forall>u\<in>set us. u < 65536"
  shows "length (concat (map utf8_encode (utf16_decode us))) \<le> 3 * length us
   \<and> (us \<noteq> [] \<longrightarrow> concat (map utf8_encode (utf16_decode us)) \<noteq> [])"
  using assms
proof (induction us rule: utf16_decode.induct)
  case 1
  show ?case by simp
next
  case (2 u)
  then have "u < 0x10000" by simp
  from utf8_encode_length(3) [OF this] utf8_encode_length(1) [of u]
    utf8_encode_length(1) [of REPLACEMENT_CHARACTER]
    utf8_encode_length(3) [of REPLACEMENT_CHARACTER]
  show ?case by (auto simp: REPLACEMENT_CHARACTER_def)
next
  case (3 u v us)
  have u: "u < 0x10000" using "3.prems" by simp
  have r: "length (utf8_encode REPLACEMENT_CHARACTER) \<le> 3"
    by (rule utf8_encode_length(3)) (simp add: REPLACEMENT_CHARACTER_def)
  show ?case
  proof (cases "is_high_surrogate u")
    case h: True
    show ?thesis
    proof (cases "is_low_surrogate v")
      case True
      with h "3.IH"(1) "3.prems"
      have "length (concat (map utf8_encode (utf16_decode us))) \<le> 3 * length us" by simp
      with h True utf8_encode_length(1,2) [of "0x10000 + (u - 0xD800) * 1024 + (v - 0xDC00)"]
      show ?thesis by auto
    next
      case False
      with h "3.IH"(2) "3.prems"
      have "length (concat (map utf8_encode (utf16_decode (v # us)))) \<le> 3 * length (v # us)"
        by simp
      with h False r utf8_encode_length(1) [of REPLACEMENT_CHARACTER] show ?thesis by auto
    qed
  next
    case nh: False
    show ?thesis
    proof (cases "is_low_surrogate u")
      case True
      with nh "3.IH"(3) "3.prems"
      have "length (concat (map utf8_encode (utf16_decode (v # us)))) \<le> 3 * length (v # us)"
        by simp
      with nh True r utf8_encode_length(1) [of REPLACEMENT_CHARACTER] show ?thesis by auto
    next
      case False
      with nh "3.IH"(4) "3.prems"
      have "length (concat (map utf8_encode (utf16_decode (v # us)))) \<le> 3 * length (v # us)"
        by simp
      with nh False utf8_encode_length(3) [OF u] utf8_encode_length(1) [of u] show ?thesis
        by auto
    qed
  qed
qed

lemma utf16_to_utf8_length:
  shows "length (utf16_to_utf8 w) \<le> 3 * length w" and "w \<noteq> [] \<Longrightarrow> utf16_to_utf8 w \<noteq> []"
proof -
  have "\<forall>u\<in>set (map unat w). u < 65536"
  proof
    fix u assume "u \<in> set (map unat w)"
    then obtain x :: "16 word" where "u = unat x" by auto
    moreover have "unat x < 2 ^ LENGTH(16)" by (rule unsigned_less)
    ultimately show "u < 65536" by simp
  qed
  from utf16_decode_bytes [OF this]
  show "length (utf16_to_utf8 w) \<le> 3 * length w" and "w \<noteq> [] \<Longrightarrow> utf16_to_utf8 w \<noteq> []"
    by (simp_all add: utf16_to_utf8_def)
qed

lemma utf8_to_utf16_length:
  shows "length (utf8_to_utf16 s) \<le> length s" and "s \<noteq> [] \<Longrightarrow> utf8_to_utf16 s \<noteq> []"
  using utf8_decode_units [of "map of_char s"] by (simp_all add: utf8_to_utf16_def)

lemma static_cast_int_small:
  assumes "n \<le> INT_MAX"
  shows "static_cast_int n = int n"
  using assms by (simp add: static_cast_int_def INT_MAX_def)

lemma utf8ToWide_small:
  assumes "length s \<le> INT_MAX"
  shows "utf8ToWide s = Inr (utf8_to_utf16 s)"
proof (cases "s = []")
  case True
  then show ?thesis by (simp add: utf8ToWide_def utf8_to_utf16_def)
next
  case False
  have "length (utf8_to_utf16 s) \<le> INT_MAX"
    using utf8_to_utf16_length(1) [of s] assms by simp
  with False utf8_to_utf16_length(2) [OF False] static_cast_int_small [OF assms]
  show ?thesis by (simp add: utf8ToWide_def MultiByteToWideChar_def)
qed

lemma wideToUtf8_small:
  assumes "3 * length w \<le> INT_MAX"
  shows "wideToUtf8 w = Inr (utf16_to_utf8 w)"
proof (cases "w = []")
  case True
  then show ?thesis by (simp add: wideToUtf8_def utf16_to_utf8_def)
next
  case False
  have l: "length w \<le> INT_MAX" using assms by simp
  have "length (utf16_to_utf8 w) \<le> INT_MAX"
    using utf16_to_utf8_length(1) [of w] assms by simp
  with False utf16_to_utf8_length(2) [OF False] static_cast_int_small [OF l]
  show ?thesis by (simp add: wideToUtf8_def WideCharToMultiByte_def)
qed

lemma unat_of_nat_units:
  assumes "\<forall>u\<in>set us. u < 65536"
  shows "map unat (map of_nat us :: wstring) = us"
  using assms by (induction us) (simp_all add: unat_of_nat)

lemma transcode_roundtrip:
  assumes "valid_utf8 s"
  shows "utf16_to_utf8 (utf8_to_utf16 s) = s"
proof -
  let ?cs = "utf8_decode (map of_char s)"
  let ?us = "concat (map utf16_encode ?cs)"
  from assms have v: "valid_utf8_bytes (map of_char s)" by (simp add: valid_utf8_def)
  note d = utf8_decode_valid [OF v]
  have sc: "list_all is_scalar ?cs" using d by simp
  have "\<forall>u\<in>set ?us. u < 65536"
    using sc utf16_encode_unit_bound by (auto simp: list_all_iff)
  then have "map unat (map of_nat ?us :: wstring) = ?us"
    by (rule unat_of_nat_units)
  then have "utf16_to_utf8 (utf8_to_utf16 s) = map char_of (concat (map utf8_encode (utf16_decode ?us)))"
    by (simp add: utf16_to_utf8_def utf8_to_utf16_def)
  also have "\<dots> = map char_of (map of_char s :: nat list)"
    using utf16_decode_encode [OF sc] d by simp
  also have "\<dots> = s" by simp
  finally show ?thesis .
qed

section \<open>Facts about the filter builder\<close>

lemma find_char_None: "find_char c xs = None \<longleftrightarrow> c \<notin> set xs"
  by (induction xs) auto

lemma find_char_Some:
  assumes "find_char c xs = Some i"
  shows "take i xs = takeWhile (\<lambda>x. x \<noteq> c) xs \<and> drop (i + 1) xs = tl (dropWhile (\<lambda>x. x \<noteq> c) xs)"
  using assms by (induction xs arbitrary: i) (auto split: if_splits)

lemma find_char_append:
  assumes "c \<notin> set xs"
  shows "find_char c (xs @ c # ys) = Some (length xs)"
  using assms by (induction xs) auto

lemma buildFilter_loop_spec:
  assumes "\<forall>f\<in>set fs. length f < 2 ^ 31"
  shows "buildFilter_loop fs acc =
     (case List.find (\<lambda>f. CHR ''|'' \<notin> set f) fs of
        Some f \<Rightarrow> Inl (invalid_argument (filter_format_message f))
      | None \<Rightarrow> Inr (acc @ concat (map spec_filter_entry fs)))"
  using assms
proof (induction fs arbitrary: acc)
  case Nil
  show ?case by simp
next
  case (Cons f fs)
  show ?case
  proof (cases "find_char CHR ''|'' f")
    case None
    then have "CHR ''|'' \<notin> set f" by (simp add: find_char_None)
    with None show ?thesis by simp
  next
    case (Some i)
    then have m: "CHR ''|'' \<in> set f" using find_char_None [of "CHR ''|''" f] by auto
    from find_char_Some [OF Some]
    have t: "take i f = spec_filter_label f" and d: "drop (i + 1) f = spec_filter_pattern f"
      by (simp_all add: spec_filter_label_def spec_filter_pattern_def)
    have "length f \<le> INT_MAX" using Cons.prems by (simp add: INT_MAX_def)
    then have "length (take i f) \<le> INT_MAX" "length (drop (i + 1) f) \<le> INT_MAX" by simp_all
    then have c: "utf8ToWide (take i f) = Inr (utf8_to_utf16 (spec_filter_label f))"
      "utf8ToWide (drop (i + 1) f) = Inr (utf8_to_utf16 (spec_filter_pattern f))"
      using t d utf8ToWide_small by metis+
    have "\<forall>f\<in>set fs. length f < 2 ^ 31" using Cons.prems by simp
    moreover have "spec_filter_entry f =
        utf8_to_utf16 (spec_filter_label f) @ [0] @ utf8_to_utf16 (spec_filter_pattern f) @ [0]"
      by (simp add: spec_filter_entry_def)
    ultimately show ?thesis using Cons.IH Some m c
      by (simp split: option.splits)
  qed
qed

lemma buildFilter_eq_spec:
  assumes "\<forall>f\<in>set filters. length f < 2 ^ 31"
  shows "buildFilter filters = spec_buildFilter filters"
  using buildFilter_loop_spec [OF assms, of "[]"]
  by (simp add: buildFilter_def spec_buildFilter_def split: option.splits)

lemma find_Some_iff_ex: "(\<exists>x. List.find P xs = Some x) \<longleftrightarrow> (\<exists>x\<in>set xs. P x)"
  by (induction xs) auto

lemma L_ascii: "\<forall>c\<in>set s. of_char c < (128::nat) \<Longrightarrow> utf8_to_utf16 s = L s"
proof (induction s)
  case Nil
  show ?case by (simp add: utf8_to_utf16_def L_def)
next
  case (Cons c s)
  then have "of_char c < (128::nat)" and ih: "utf8_to_utf16 s = L s" by simp_all
  then show ?case by (simp add: utf8_to_utf16_def L_def utf16_encode_def of_nat_of_char)
qed

lemma utf8ToWide_size_wraps_to_zero:
  "utf8ToWide (replicate 4294967296 c) = Inl (runtime_error ''UTF8 to wide conversion failed: 87'')"
proof -
  have "static_cast_int (length (replicate 4294967296 c)) = 0"
    by (simp add: static_cast_int_def)
  moreover have "replicate 4294967296 c \<noteq> []" by simp
  moreover have "to_string 87 = ''87''"
    by code_simp
  ultimately show ?thesis
    by (simp add: utf8ToWide_def MultiByteToWideChar_def ERROR_INVALID_PARAMETER_def)
qed

lemma valid_utf8_ascii:
  assumes "\<forall>c\<in>set s. of_char c < (128::nat)"
  shows "valid_utf8 s"
  using assms unfolding valid_utf8_def by (induction s) simp_all

section \<open>Facts about the multi-select buffer\<close>

lemma wstring_at_token:
  assumes "0 \<notin> set t"
  shows "wstring_at (pre @ t @ 0 # rest) (length pre) = Some t"
proof -
  have "takeWhile (\<lambda>u. u \<noteq> 0) (t @ 0 # rest) = t"
    using assms by (induction t) auto
  then show ?thesis by (simp add: wstring_at_def)
qed

lemma unat_of_char: "unat (of_char c :: wchar_t) = of_char c"
proof -
  have "unat (of_nat (of_char c) :: wchar_t) = of_char c mod 2 ^ LENGTH(16)"
    by (rule unat_of_nat)
  moreover have "(of_char c :: nat) < 256" by simp
  ultimately show ?thesis by (simp add: of_nat_of_char)
qed

lemma L_append: "L (a @ b) = L a @ L b"
  by (simp add: L_def)

lemma utf16_to_utf8_ascii:
  assumes "\<forall>c\<in>set s. of_char c < (128::nat)"
  shows "utf16_to_utf8 (L s) = s"
  using assms
proof (induction s)
  case Nil
  show ?case by (simp add: utf16_to_utf8_def L_def)
next
  case (Cons c s)
  then have c: "of_char c < (128::nat)" and ih: "utf16_to_utf8 (L s) = s" by simp_all
  let ?x = "of_char c :: nat"
  have "is_scalar ?x" "?x < 0x10000" using c by (simp_all add: is_scalar_def)
  note d = utf16_decode_bmp [OF this]
  have e: "utf8_encode ?x = [?x]" using c by (simp add: utf8_encode_def)
  have "utf16_to_utf8 (L (c # s)) = char_of ?x # utf16_to_utf8 (L s)"
    unfolding utf16_to_utf8_def L_def by (simp add: unat_of_char d e)
  with ih show ?case by simp
qed

lemma parse_file_names_tokens:
  assumes "\<forall>t\<in>set toks. t \<noteq> [] \<and> 0 \<notin> set t"
    and "buf = pre @ concat (map (\<lambda>t. t @ [0]) toks) @ 0 # rest"
    and "length buf \<le> BUFFER_SIZE" and "length directory \<le> BUFFER_SIZE"
  shows "parse_file_names buf directory (length pre) acc =
     Some (Inr (acc @ map (\<lambda>t. utf16_to_utf8 (directory @ path_separator @ t)) toks))"
  using assms
proof (induction toks arbitrary: pre acc)
  case Nil
  then show ?case by (simp add: parse_file_names.simps)
next
  case (Cons t ts)
  have t: "t \<noteq> []" "0 \<notin> set t" using Cons.prems(1) by simp_all
  have buf: "buf = pre @ t @ 0 # (concat (map (\<lambda>t. t @ [0]) ts) @ 0 # rest)"
    using Cons.prems(2) by simp
  have 1: "\<not> length buf \<le> length pre" using buf t by simp
  have "buf ! length pre = hd t" using buf t by (cases t) (simp_all add: nth_append)
  then have 2: "buf ! length pre \<noteq> 0" using t by (cases t) auto
  have 3: "wstring_at buf (length pre) = Some t" unfolding buf by (rule wstring_at_token [OF t(2)])
  have "length t \<le> length buf" unfolding buf by simp
  then have "3 * length (directory @ path_separator @ t) \<le> INT_MAX"
    using Cons.prems(3,4) by (simp add: BUFFER_SIZE_def INT_MAX_def path_separator_def)
  then have 4: "wideToUtf8 (directory @ path_separator @ t)
      = Inr (utf16_to_utf8 (directory @ path_separator @ t))"
    by (rule wideToUtf8_small)
  have buf': "buf = (pre @ t @ [0]) @ concat (map (\<lambda>t. t @ [0]) ts) @ 0 # rest"
    using buf by simp
  have "\<forall>t\<in>set ts. t \<noteq> [] \<and> 0 \<notin> set t" using Cons.prems(1) by simp
  from Cons.IH [OF this buf' Cons.prems(3,4)]
  have ih: "parse_file_names buf directory (length pre + (length t + 1))
        (acc @ [utf16_to_utf8 (directory @ path_separator @ t)]) =
      Some (Inr ((acc @ [utf16_to_utf8 (directory @ path_separator @ t)])
        @ map (\<lambda>t. utf16_to_utf8 (directory @ path_separator @ t)) ts))"
    by (simp add: add.assoc)
  show ?case using ih
    by (subst parse_file_names.simps) (simp add: 1 2 3 4)
qed

section \<open>Facts about the file pickers\<close>

lemma decimal_value_to_string: "decimal_value (to_string n) = n"
proof (induction n rule: to_string.induct)
  case (1 n)
  show ?case
  proof (cases "n < 10")
    case True
    then show ?thesis
      by (subst to_string.simps) (simp add: decimal_value_def digit_char_def)
  next
    case False
    have "n mod 10 < 10" by simp
    then have d: "of_char (digit_char (n mod 10)) - of_char CHR ''0'' = n mod 10"
      by (simp add: digit_char_def)
    have "decimal_value (to_string n) = 10 * decimal_value (to_string (n div 10)) + n mod 10"
      using False d by (subst to_string.simps) (simp add: decimal_value_def)
    with "1.IH" [OF False] show ?thesis by simp
  qed
qed

lemma ofn_request_small:
  assumes "length title < 128" "length initialDir < 128" "length defaultFileName < 128"
    "length defaultExt < 128" "buildFilter filters = Inr f" "128 \<le> limit"
  shows "\<exists>ofn. ofn_request bufsize limit flags filters title initialDir defaultFileName defaultExt
     parentHWND = Inr ofn"
proof -
  have c: "\<And>s. length s < 128 \<Longrightarrow> utf8ToWide s = Inr (utf8_to_utf16 s)"
    by (rule utf8ToWide_small) (simp add: INT_MAX_def)
  have "\<not> limit \<le> length (utf8_to_utf16 defaultFileName)"
    using utf8_to_utf16_length(1) [of defaultFileName] assms(3,6) by simp
  then show ?thesis using assms
    by (simp add: ofn_request_def bind_exn_def initial_path_buffer_def optional_wide_def c)
qed

section \<open>Facts about the hand-built dialogs\<close>

lemma message_loop_first_end:
  assumes "\<forall>m\<in>set pre. proc m s = s" and "\<not> quit s" and "quit (proc m s)"
  shows "message_loop proc quit (pre @ m # post) s d = Some (proc m s, d @ pre @ [m])"
  using assms by (induction pre arbitrary: d) simp_all



lemma utf8ToWide_ascii:
  assumes "\<forall>c\<in>set s. of_char c < (128::nat)" and "length s \<le> INT_MAX"
  shows "utf8ToWide s = Inr (L s)"
  using utf8ToWide_small [OF assms(2)] L_ascii [OF assms(1)] by simp

lemma prompt_idle:
  assumes "\<not> ends_prompt (fst m)"
  shows "PromptDialogProc m s = s"
  using assms
  by (cases "fst m") (auto simp: PromptDialogProc_def ends_prompt_def)

lemma wideToUtf8_captured: "wideToUtf8 (GetDlgItemTextW edit 256) = Inr (utf16_to_utf8 (take 255 (c_str_value edit)))"
proof -
  have "3 * length (take 255 (c_str_value edit)) \<le> INT_MAX" by (simp add: INT_MAX_def)
  from wideToUtf8_small [OF this] show ?thesis by (simp add: GetDlgItemTextW_def)
qed

lemma promptDialog_confirm:
  assumes "utf8ToWide message = Inr g_message" "utf8ToWide defaultContent = Inr g_defalutContent"
    "utf8ToWide title = Inr wtitle" "window_created env"
    "messages env = pre @ (WM_COMMAND wParam, edit) # post"
    "\<forall>p\<in>set pre. \<not> ends_prompt (fst p)" "LOWORD wParam = GCOMMMDLG_IDOK"
  shows "promptDialog title message defaultContent hParent before env =
     Inr \<lparr>returned = Some (True, utf16_to_utf8 (take 255 (c_str_value edit))),
          calls = [RegisterClassExW, CreateWindowExW, ShowWindow, UpdateWindow]
            @ map (DispatchMessageW \<circ> fst) (pre @ [(WM_COMMAND wParam, edit)])
            @ [UnregisterClassW]\<rparr>"
proof -
  let ?s0 = "before\<lparr>prompt_quit_posted := False\<rparr>"
  let ?m = "(WM_COMMAND wParam, edit)"
  have idle: "\<forall>m\<in>set pre. PromptDialogProc m ?s0 = ?s0"
    using assms(6) prompt_idle by blast
  have step: "PromptDialogProc ?m ?s0
      = before\<lparr>prompt_quit_posted := True, g_inputText := GetDlgItemTextW edit 256,
                g_did_confirm := True\<rparr>"
    using assms(7) by (simp add: PromptDialogProc_def prompt_DestroyWindow_def)
  have "message_loop PromptDialogProc prompt_quit_posted (pre @ ?m # post) ?s0 []
      = Some (PromptDialogProc ?m ?s0, [] @ pre @ [?m])"
    by (rule message_loop_first_end
        [where proc = PromptDialogProc and s = ?s0 and quit = prompt_quit_posted, OF idle])
      (simp_all add: step)
  with assms(1-5) step wideToUtf8_captured [of edit] show ?thesis
    by (simp add: promptDialog_def bind_exn_def)
qed

lemma promptDialog_cancel:
  assumes "utf8ToWide message = Inr g_message" "utf8ToWide defaultContent = Inr g_defalutContent"
    "utf8ToWide title = Inr wtitle" "window_created env"
    "messages env = pre @ (msg, edit) # post"
    "\<forall>p\<in>set pre. \<not> ends_prompt (fst p)"
    "(\<exists>wParam. msg = WM_COMMAND wParam \<and> LOWORD wParam = GCOMMMDLG_IDCANCEL) \<or> msg = WM_CLOSE"
  shows "promptDialog title message defaultContent hParent before env =
     Inr \<lparr>returned = Some (False, []),
          calls = [RegisterClassExW, CreateWindowExW, ShowWindow, UpdateWindow]
            @ map (DispatchMessageW \<circ> fst) (pre @ [(msg, edit)])
            @ [UnregisterClassW]\<rparr>"
proof -
  let ?s0 = "before\<lparr>prompt_quit_posted := False\<rparr>"
  let ?m = "(msg, edit)"
  have idle: "\<forall>m\<in>set pre. PromptDialogProc m ?s0 = ?s0"
    using assms(6) prompt_idle by blast
  have step: "PromptDialogProc ?m ?s0
      = before\<lparr>prompt_quit_posted := True, g_inputText := [], g_did_confirm := False\<rparr>"
    using assms(7)
    by (auto simp: PromptDialogProc_def prompt_DestroyWindow_def GCOMMMDLG_IDOK_def
        GCOMMMDLG_IDCANCEL_def)
  have "message_loop PromptDialogProc prompt_quit_posted (pre @ ?m # post) ?s0 []
      = Some (PromptDialogProc ?m ?s0, [] @ pre @ [?m])"
    by (rule message_loop_first_end
        [where proc = PromptDialogProc and s = ?s0 and quit = prompt_quit_posted, OF idle])
      (simp_all add: step)
  with assms(1-5) step show ?thesis
    by (simp add: promptDialog_def bind_exn_def)
qed

lemma c_str_value_id:
  assumes "0 \<notin> set w"
  shows "c_str_value w = w"
  using assms unfolding c_str_value_def by (induction w) auto

section \<open>Facts about the font lookup\<close>













section \<open>Facts about the font and colour pickers\<close>



lemma RGB_channels:
  "GetRValue (RGB r g b) = r" "GetGValue (RGB r g b) = g" "GetBValue (RGB r g b) = b"
  unfolding GetRValue_def GetGValue_def GetBValue_def RGB_def
  by (rule bit_word_eqI; auto simp: bit_simps dest: bit_imp_le_length)+




section \<open>The claims\<close>

text \<open>
  Claim C1. A buffer the dialog returns holds the directory token, a 0, the file name
  tokens (non-empty, each followed by a 0) and one more 0; what follows is not read.
  \<^verbatim>\<open>getOpenMultipleFileNames\<close> returns, when no file name token follows, the
  one-element list of the first token itself, and otherwise for every file name token
  \<open>t\<close>, in order, the directory, a backslash and \<open>t\<close>; every entry converted to UTF-8.
\<close>

theorem multi_select_parse:
  assumes "0 \<notin> set dir" and "\<forall>t\<in>set toks. t \<noteq> [] \<and> 0 \<notin> set t"
    and "buf = dir @ 0 # concat (map (\<lambda>t. t @ [0]) toks) @ 0 # rest"
    and "length buf \<le> BUFFER_SIZE"
  shows "parse_selected_files buf =
      Some (Inr (if toks = [] then [utf16_to_utf8 dir]
                 else map (\<lambda>t. utf16_to_utf8 (dir @ path_separator @ t)) toks))
    \<and> (\<forall>filters title initialDir defaultFileName defaultExt parentHWND dlg ofn.
         multi_request filters title initialDir defaultFileName defaultExt parentHWND = Inr ofn
         \<and> succeeded (dlg ofn) \<and> file_buffer (dlg ofn) = buf
         \<longrightarrow> getOpenMultipleFileNames filters title initialDir defaultFileName defaultExt
               parentHWND dlg =
             Some (Inr (if toks = [] then [utf16_to_utf8 dir]
                        else map (\<lambda>t. utf16_to_utf8 (dir @ path_separator @ t)) toks)))"
proof -
  have d0: "wstring_at buf 0 = Some dir"
    using wstring_at_token [OF assms(1), of "[]"] assms(3) by simp
  have ld: "length dir \<le> BUFFER_SIZE" using assms(3,4) by simp
  have lb: "\<not> length buf \<le> length dir + 1" using assms(3) by simp
  have p: "parse_selected_files buf =
      Some (Inr (if toks = [] then [utf16_to_utf8 dir]
                 else map (\<lambda>t. utf16_to_utf8 (dir @ path_separator @ t)) toks))"
  proof (cases toks)
    case Nil
    then have "buf ! (length dir + 1) = 0" using assms(3) by (simp add: nth_append)
    moreover have "3 * length dir \<le> INT_MAX"
      using ld by (simp add: BUFFER_SIZE_def INT_MAX_def)
    then have "wideToUtf8 dir = Inr (utf16_to_utf8 dir)" by (rule wideToUtf8_small)
    ultimately show ?thesis using Nil d0 lb by (simp add: parse_selected_files_def)
  next
    case (Cons t ts)
    then have t: "t \<noteq> []" "0 \<notin> set t" using assms(2) by simp_all
    have buf: "buf = (dir @ [0]) @ concat (map (\<lambda>t. t @ [0]) toks) @ 0 # rest"
      using assms(3) by simp
    have "buf ! (length dir + 1) = hd t"
      using assms(3) Cons t by (cases t) (simp_all add: nth_append)
    then have nz: "buf ! (length dir + 1) \<noteq> 0" using t by (cases t) auto
    from parse_file_names_tokens [OF assms(2) buf assms(4) ld, of "[]"]
    have "parse_file_names buf dir (length dir + 1) [] =
      Some (Inr (map (\<lambda>t. utf16_to_utf8 (dir @ path_separator @ t)) toks))" by simp
    then show ?thesis using Cons d0 lb nz by (simp add: parse_selected_files_def)
  qed
  then show ?thesis by (simp add: getOpenMultipleFileNames_def)
qed

text \<open>
  The two buffers of the specification, and the first of them returned by a dialog call.
\<close>

theorem multi_select_parse_witness:
  "parse_selected_files
       (L (windows_path [''C:'', ''dir'']) @ [0] @ L ''a.txt'' @ [0] @ L ''b.txt'' @ [0, 0])
     = Some (Inr [windows_path [''C:'', ''dir'', ''a.txt''],
                  windows_path [''C:'', ''dir'', ''b.txt'']])
   \<and> parse_selected_files (L (windows_path [''C:'', ''dir'', ''only.txt'']) @ [0, 0])
     = Some (Inr [windows_path [''C:'', ''dir'', ''only.txt'']])
   \<and> getOpenMultipleFileNames [''All Files(*.*)|*.*''] [] [] [] [] 0
       (\<lambda>ofn. \<lparr> succeeded = True,
                 file_buffer =
                   L (windows_path [''C:'', ''dir'']) @ [0] @ L ''a.txt'' @ [0] @ L ''b.txt''
                     @ [0, 0],
                 extended_error = 0 \<rparr>)
     = Some (Inr [windows_path [''C:'', ''dir'', ''a.txt''],
                  windows_path [''C:'', ''dir'', ''b.txt'']])"
proof -
  let ?d = "L (windows_path [''C:'', ''dir''])"
  let ?o = "L (windows_path [''C:'', ''dir'', ''only.txt''])"
  let ?dlg = "\<lambda>ofn :: OPENFILENAMEW. \<lparr> succeeded = True,
                 file_buffer = ?d @ [0] @ L ''a.txt'' @ [0] @ L ''b.txt'' @ [0, 0],
                 extended_error = 0 \<rparr>"
  have "\<exists>ofn. multi_request [''All Files(*.*)|*.*''] [] [] [] [] 0 = Inr ofn"
    using buildFilter_eq_spec [of "[''All Files(*.*)|*.*'']"]
    by (simp add: multi_request_def ofn_request_def bind_exn_def spec_buildFilter_def
        initial_path_buffer_def optional_wide_def utf8ToWide_def)
  then obtain ofn where r: "multi_request [''All Files(*.*)|*.*''] [] [] [] [] 0 = Inr ofn" ..
  have a: "\<forall>c\<in>set (windows_path [''C:'', ''dir'', ''a.txt'']). of_char c < (128::nat)"
       "\<forall>c\<in>set (windows_path [''C:'', ''dir'', ''b.txt'']). of_char c < (128::nat)"
       "\<forall>c\<in>set (windows_path [''C:'', ''dir'', ''only.txt'']). of_char c < (128::nat)"
    by (simp_all add: windows_path_def)
  note u = a [THEN utf16_to_utf8_ascii]
  have z: "(0::wchar_t) \<notin> set ?d" "(0::wchar_t) \<notin> set ?o"
    by (simp_all add: L_def windows_path_def)
  have t: "\<forall>t\<in>set [L ''a.txt'', L ''b.txt'']. t \<noteq> [] \<and> (0::wchar_t) \<notin> set t"
    by (simp add: L_def)
  have t0: "\<forall>t\<in>set ([] :: wstring list). t \<noteq> [] \<and> (0::wchar_t) \<notin> set t" by simp
  have s: "?d @ path_separator @ L ''a.txt'' = L (windows_path [''C:'', ''dir'', ''a.txt''])"
          "?d @ path_separator @ L ''b.txt'' = L (windows_path [''C:'', ''dir'', ''b.txt''])"
    by (simp_all add: path_separator_def L_def windows_path_def)
  have b1: "?d @ [0] @ L ''a.txt'' @ [0] @ L ''b.txt'' @ [0, 0]
      = ?d @ 0 # concat (map (\<lambda>t. t @ [0]) [L ''a.txt'', L ''b.txt'']) @ 0 # []" by simp
  have b2: "?o @ [0, 0] = ?o @ 0 # concat (map (\<lambda>t. t @ [0]) []) @ 0 # []" by simp
  have l1: "length (?d @ [0] @ L ''a.txt'' @ [0] @ L ''b.txt'' @ [0, 0]) \<le> BUFFER_SIZE"
    and l2: "length (?o @ [0, 0]) \<le> BUFFER_SIZE"
    by (simp_all add: BUFFER_SIZE_def L_def windows_path_def)
  note m1 = multi_select_parse [OF z(1) t b1 l1]
  note m2 = multi_select_parse [OF z(2) t0 b2 l2]
  have p1: "parse_selected_files (?d @ [0] @ L ''a.txt'' @ [0] @ L ''b.txt'' @ [0, 0])
     = Some (Inr [windows_path [''C:'', ''dir'', ''a.txt''],
                  windows_path [''C:'', ''dir'', ''b.txt'']])"
    using m1 [THEN conjunct1] by (simp add: s u)
  have p2: "parse_selected_files (?o @ [0, 0])
     = Some (Inr [windows_path [''C:'', ''dir'', ''only.txt'']])"
    using m2 [THEN conjunct1] by (simp add: u)
  have "multi_request [''All Files(*.*)|*.*''] [] [] [] [] 0 = Inr ofn
      \<and> succeeded (?dlg ofn)
      \<and> file_buffer (?dlg ofn) = ?d @ [0] @ L ''a.txt'' @ [0] @ L ''b.txt'' @ [0, 0]"
    using r by simp
  with m1 [THEN conjunct2]
  have p3: "getOpenMultipleFileNames [''All Files(*.*)|*.*''] [] [] [] [] 0 ?dlg
     = Some (Inr [windows_path [''C:'', ''dir'', ''a.txt''],
                  windows_path [''C:'', ''dir'', ''b.txt'']])"
    by (simp add: s u)
  from p1 p2 p3 show ?thesis by simp
qed

text \<open>
  Claim C2, as the code has it. For every list of filter strings whose entries are each
  shorter than \<open>2^31\<close> bytes, \<^verbatim>\<open>buildFilter\<close> is the builder of section 4.2:
  it raises the format error \<^verbatim>\<open>std::invalid_argument\<close>, for the first entry without
  a \<^verbatim>\<open>|\<close>, if and only if some entry contains no \<^verbatim>\<open>|\<close>; otherwise it returns, for
  each entry in order, the label before the first \<^verbatim>\<open>|\<close> and the pattern after it, each
  converted and followed by a 0, and one more 0 at the end. The buffer ends with two 0
  units: the string itself when the list is not empty, and in every case what the
  platform reads through \<^verbatim>\<open>c_str()\<close>.
\<close>

theorem buildFilter_bounded:
  assumes "\<forall>f\<in>set filters. length f < 2 ^ 31"
  shows "buildFilter filters = spec_buildFilter filters
    \<and> ((\<exists>m. buildFilter filters = Inl (invalid_argument m))
         \<longleftrightarrow> (\<exists>f\<in>set filters. CHR ''|'' \<notin> set f))
    \<and> (\<forall>b. buildFilter filters = Inr b \<longrightarrow>
          (\<exists>p. c_str b = p @ [0, 0]) \<and> (filters \<noteq> [] \<longrightarrow> (\<exists>p. b = p @ [0, 0])))"
proof -
  have e: "buildFilter filters = spec_buildFilter filters"
    by (rule buildFilter_eq_spec [OF assms])
  have i: "(\<exists>m. spec_buildFilter filters = Inl (invalid_argument m))
         \<longleftrightarrow> (\<exists>f\<in>set filters. CHR ''|'' \<notin> set f)"
    using find_Some_iff_ex [of "\<lambda>f. CHR ''|'' \<notin> set f" filters]
    by (auto simp: spec_buildFilter_def split: option.splits)
  have l: "filters \<noteq> [] \<Longrightarrow> \<exists>p. concat (map spec_filter_entry filters) = p @ [0]"
  proof -
    assume "filters \<noteq> []"
    then obtain fs f where "filters = fs @ [f]" by (metis rev_exhaust)
    then have "concat (map spec_filter_entry filters) =
        (concat (map spec_filter_entry fs) @ utf8_to_utf16 (spec_filter_label f) @ [0]
           @ utf8_to_utf16 (spec_filter_pattern f)) @ [0]"
      by (simp add: spec_filter_entry_def)
    then show ?thesis by blast
  qed
  have t: "\<forall>b. spec_buildFilter filters = Inr b \<longrightarrow>
      (\<exists>p. c_str b = p @ [0, 0]) \<and> (filters \<noteq> [] \<longrightarrow> (\<exists>p. b = p @ [0, 0]))"
  proof (intro allI impI conjI)
    fix b assume "spec_buildFilter filters = Inr b"
    then have b: "b = concat (map spec_filter_entry filters) @ [0]"
      by (auto simp: spec_buildFilter_def split: option.splits)
    show "\<exists>p. c_str b = p @ [0, 0]" by (simp add: b c_str_def)
    assume "filters \<noteq> []"
    from l [OF this] obtain p where "concat (map spec_filter_entry filters) = p @ [0]" ..
    then show "\<exists>p. b = p @ [0, 0]" by (simp add: b)
  qed
  show ?thesis using e i t by simp
qed

text \<open>
  The examples of the specification: the entry \<^verbatim>\<open>Text(*.txt)|*.txt\<close> gives the label
  \<^verbatim>\<open>Text(*.txt)\<close> and the pattern \<^verbatim>\<open>*.txt\<close>; \<^verbatim>\<open>badfilter\<close> raises the format error.
\<close>

theorem buildFilter_bounded_witness:
  "length ''Text(*.txt)|*.txt'' < (2::nat) ^ 31
   \<and> buildFilter [''Text(*.txt)|*.txt''] = Inr (L ''Text(*.txt)'' @ [0] @ L ''*.txt'' @ [0, 0])
   \<and> length ''badfilter'' < (2::nat) ^ 31
   \<and> buildFilter [''badfilter''] = Inl (invalid_argument (filter_format_message ''badfilter''))"
  using buildFilter_bounded [of "[''Text(*.txt)|*.txt'']"] buildFilter_bounded [of "[''badfilter'']"]
  by (simp add: spec_buildFilter_def spec_filter_entry_def spec_filter_label_def
      spec_filter_pattern_def L_ascii)

text \<open>
  Without the bound the claim fails: the size of a label of \<open>2^32\<close> bytes is passed
  to the conversion primitive as the \<^verbatim>\<open>int\<close> 0, the primitive fails, and
  \<^verbatim>\<open>buildFilter\<close> raises the conversion error although the entry contains a \<^verbatim>\<open>|\<close>.
\<close>

theorem buildFilter_counterexample:
  "CHR ''|'' \<in> set (replicate 4294967296 CHR ''A'' @ ''|*.txt'')
   \<and> buildFilter [replicate 4294967296 CHR ''A'' @ ''|*.txt'']
       = Inl (runtime_error ''UTF8 to wide conversion failed: 87'')"
proof -
  have "find_char CHR ''|'' (replicate 4294967296 CHR ''A'' @ CHR ''|'' # ''*.txt'')
      = Some (length (replicate 4294967296 CHR ''A''))"
    by (rule find_char_append) simp
  then show ?thesis
    by (simp add: buildFilter_def utf8ToWide_size_wraps_to_zero)
qed







text \<open>
  Claim C5, as the code has it. For every valid UTF-8 string \<open>s\<close> of fewer than
  \<open>2^31\<close> bytes, the empty string included, \<^verbatim>\<open>utf8ToWide\<close> returns a wide string
  from which \<^verbatim>\<open>wideToUtf8\<close> returns \<open>s\<close>. Valid is what \<open>valid_utf8\<close>
  accepts, and the conversion primitives are the transcoders modelled above.
\<close>

theorem encoding_roundtrip_bounded:
  assumes "valid_utf8 s" and "length s < 2 ^ 31"
  shows "\<exists>w. utf8ToWide s = Inr w \<and> wideToUtf8 w = Inr s"
proof -
  let ?w = "utf8_to_utf16 s"
  have l: "length s \<le> INT_MAX" using assms(2) by (simp add: INT_MAX_def)
  have 1: "utf8ToWide s = Inr ?w" by (rule utf8ToWide_small [OF l])
  have rt: "utf16_to_utf8 ?w = s" by (rule transcode_roundtrip [OF assms(1)])
  have 2: "wideToUtf8 ?w = Inr s"
  proof (cases "s = []")
    case True
    then show ?thesis by (simp add: wideToUtf8_def utf8_to_utf16_def)
  next
    case False
    have ne: "?w \<noteq> []" by (rule utf8_to_utf16_length(2) [OF False])
    have "length ?w \<le> INT_MAX" using utf8_to_utf16_length(1) [of s] l by simp
    from static_cast_int_small [OF this] ne rt False l show ?thesis
      by (simp add: wideToUtf8_def WideCharToMultiByte_def)
  qed
  from 1 2 show ?thesis by blast
qed

text \<open>
  A string with sequences of one, two, three and four bytes, and the empty string.
\<close>

theorem encoding_roundtrip_bounded_witness:
  "valid_utf8 [CHR ''a'', CHR 0xC3, CHR 0xA9, CHR 0xE2, CHR 0x82, CHR 0xAC, CHR 0xF0, CHR 0x9F, CHR 0x98, CHR 0x80]
   \<and> length [CHR ''a'', CHR 0xC3, CHR 0xA9, CHR 0xE2, CHR 0x82, CHR 0xAC, CHR 0xF0, CHR 0x9F, CHR 0x98, CHR 0x80] < (2::nat) ^ 31
   \<and> utf8ToWide [CHR ''a'', CHR 0xC3, CHR 0xA9, CHR 0xE2, CHR 0x82, CHR 0xAC, CHR 0xF0, CHR 0x9F, CHR 0x98, CHR 0x80]
       = Inr [0x61, 0xE9, 0x20AC, 0xD83D, 0xDE00]
   \<and> wideToUtf8 [0x61, 0xE9, 0x20AC, 0xD83D, 0xDE00]
       = Inr [CHR ''a'', CHR 0xC3, CHR 0xA9, CHR 0xE2, CHR 0x82, CHR 0xAC, CHR 0xF0, CHR 0x9F, CHR 0x98, CHR 0x80]
   \<and> valid_utf8 [] \<and> utf8ToWide [] = Inr [] \<and> wideToUtf8 [] = Inr []"
proof -
  let ?s = "[CHR ''a'', CHR 0xC3, CHR 0xA9, CHR 0xE2, CHR 0x82, CHR 0xAC, CHR 0xF0, CHR 0x9F, CHR 0x98, CHR 0x80]"
  have v: "valid_utf8 ?s"
    by (simp add: valid_utf8_def is_continuation_def is_scalar_def)
  have l: "length ?s < (2::nat) ^ 31" by simp
  have w: "utf8ToWide ?s = Inr [0x61, 0xE9, 0x20AC, 0xD83D, 0xDE00]"
    by (simp add: utf8ToWide_def MultiByteToWideChar_def static_cast_int_def INT_MAX_def
        utf8_to_utf16_def utf16_encode_def is_continuation_def is_scalar_def)
  have e: "valid_utf8 []" by (simp add: valid_utf8_def)
  have w0: "utf8ToWide [] = Inr []" by (simp add: utf8ToWide_def)
  from encoding_roundtrip_bounded [OF v l] w encoding_roundtrip_bounded [OF e] w0 v l e
  show ?thesis by simp
qed

text \<open>
  Without the bound the claim fails: \<open>2^32\<close> letters A are valid UTF-8, their size is
  passed to the primitive as the \<^verbatim>\<open>int\<close> 0, and \<^verbatim>\<open>utf8ToWide\<close> raises.
\<close>

theorem encoding_roundtrip_counterexample:
  "valid_utf8 (replicate 4294967296 CHR ''A'')
   \<and> utf8ToWide (replicate 4294967296 CHR ''A'')
       = Inl (runtime_error ''UTF8 to wide conversion failed: 87'')"
  using valid_utf8_ascii [of "replicate 4294967296 CHR ''A''"]
  by (simp add: utf8ToWide_size_wraps_to_zero)

text \<open>
  Claim C6. Whenever one of the three pickers reaches its native dialog call and the call
  reports failure, the picker returns the empty result (the empty string, the empty list)
  if the extended error is zero, and raises \<^verbatim>\<open>std::runtime_error\<close> if it is not; the
  message of the error ends with the decimal digits of the code, from which the code can
  be read back.
\<close>

theorem cancellation_is_not_an_error:
  "(open_request filters title initialDir defaultFileName defaultExt parentHWND = Inr ofn
      \<and> \<not> succeeded (dlg ofn)
    \<longrightarrow> getOpenFileName filters title initialDir defaultFileName defaultExt parentHWND dlg =
          (if extended_error (dlg ofn) = 0 then Inr []
           else Inl (runtime_error
                  (''Open file dialog failed: '' @ to_string (unat (extended_error (dlg ofn)))))))
   \<and> (save_request filters title initialDir defaultFileName defaultExt parentHWND = Inr ofn
      \<and> \<not> succeeded (dlg ofn)
    \<longrightarrow> getSaveFileName filters title initialDir defaultFileName defaultExt parentHWND dlg =
          (if extended_error (dlg ofn) = 0 then Inr []
           else Inl (runtime_error
                  (''Save file dialog failed: '' @ to_string (unat (extended_error (dlg ofn)))))))
   \<and> (multi_request filters title initialDir defaultFileName defaultExt parentHWND = Inr ofn
      \<and> \<not> succeeded (dlg ofn)
    \<longrightarrow> getOpenMultipleFileNames filters title initialDir defaultFileName defaultExt
          parentHWND dlg =
          Some (if extended_error (dlg ofn) = 0 then Inr []
                else Inl (runtime_error
                  (''Open file dialog failed: '' @ to_string (unat (extended_error (dlg ofn)))))))
   \<and> decimal_value (to_string (unat (extended_error (dlg ofn)))) = unat (extended_error (dlg ofn))"
  by (simp add: getOpenFileName_def getSaveFileName_def getOpenMultipleFileNames_def
      bind_exn_def dialog_failed_def decimal_value_to_string)

text \<open>
  Each picker cancelled, and the open picker after a failure with extended error 2.
\<close>

theorem cancellation_is_not_an_error_witness:
  "getOpenFileName [''Text Files(*.txt)|*.txt''] ''Open'' [] ''a.txt'' ''txt'' 0
       (\<lambda>ofn. \<lparr> succeeded = False, file_buffer = lpstrFile ofn, extended_error = 0 \<rparr>)
     = Inr []
   \<and> getSaveFileName [''Text Files(*.txt)|*.txt''] ''Save'' [] ''a.txt'' ''txt'' 0
       (\<lambda>ofn. \<lparr> succeeded = False, file_buffer = lpstrFile ofn, extended_error = 0 \<rparr>)
     = Inr []
   \<and> getOpenMultipleFileNames [''Text Files(*.txt)|*.txt''] ''Open'' [] ''a.txt'' ''txt'' 0
       (\<lambda>ofn. \<lparr> succeeded = False, file_buffer = lpstrFile ofn, extended_error = 0 \<rparr>)
     = Some (Inr [])
   \<and> getOpenFileName [''Text Files(*.txt)|*.txt''] ''Open'' [] ''a.txt'' ''txt'' 0
       (\<lambda>ofn. \<lparr> succeeded = False, file_buffer = lpstrFile ofn, extended_error = 2 \<rparr>)
     = Inl (runtime_error ''Open file dialog failed: 2'')"
proof -
  let ?cancel = "\<lambda>ofn. \<lparr> succeeded = False, file_buffer = lpstrFile ofn, extended_error = 0 \<rparr>"
  let ?fail = "\<lambda>ofn. \<lparr> succeeded = False, file_buffer = lpstrFile ofn, extended_error = 2 \<rparr>"
  have f: "buildFilter [''Text Files(*.txt)|*.txt''] = spec_buildFilter [''Text Files(*.txt)|*.txt'']"
    by (rule buildFilter_eq_spec) simp
  have f': "spec_buildFilter [''Text Files(*.txt)|*.txt'']
     = Inr (spec_filter_entry ''Text Files(*.txt)|*.txt'' @ [0])"
    by (simp add: spec_buildFilter_def)
  note b = f [unfolded f']
  have "\<exists>ofn. open_request [''Text Files(*.txt)|*.txt''] ''Open'' [] ''a.txt'' ''txt'' 0 = Inr ofn"
    unfolding open_request_def by (rule ofn_request_small [OF _ _ _ _ b]) (simp_all add: MAX_PATH_LEN_def)
  then obtain o1 where o1: "open_request [''Text Files(*.txt)|*.txt''] ''Open'' [] ''a.txt'' ''txt'' 0 = Inr o1" ..
  have "\<exists>ofn. save_request [''Text Files(*.txt)|*.txt''] ''Save'' [] ''a.txt'' ''txt'' 0 = Inr ofn"
    unfolding save_request_def by (rule ofn_request_small [OF _ _ _ _ b]) (simp_all add: MAX_PATH_LEN_def)
  then obtain o2 where o2: "save_request [''Text Files(*.txt)|*.txt''] ''Save'' [] ''a.txt'' ''txt'' 0 = Inr o2" ..
  have "\<exists>ofn. multi_request [''Text Files(*.txt)|*.txt''] ''Open'' [] ''a.txt'' ''txt'' 0 = Inr ofn"
    unfolding multi_request_def by (rule ofn_request_small [OF _ _ _ _ b]) (simp_all add: BUFFER_SIZE_def)
  then obtain o3 where o3: "multi_request [''Text Files(*.txt)|*.txt''] ''Open'' [] ''a.txt'' ''txt'' 0 = Inr o3" ..
  have t: "to_string 2 = ''2''" by code_simp
  from cancellation_is_not_an_error [of _ _ _ _ _ _ o1 ?cancel] o1
  have 1: "getOpenFileName [''Text Files(*.txt)|*.txt''] ''Open'' [] ''a.txt'' ''txt'' 0 ?cancel = Inr []"
    by simp
  from cancellation_is_not_an_error [of _ _ _ _ _ _ o2 ?cancel] o2
  have 2: "getSaveFileName [''Text Files(*.txt)|*.txt''] ''Save'' [] ''a.txt'' ''txt'' 0 ?cancel = Inr []"
    by simp
  from cancellation_is_not_an_error [of _ _ _ _ _ _ o3 ?cancel] o3
  have 3: "getOpenMultipleFileNames [''Text Files(*.txt)|*.txt''] ''Open'' [] ''a.txt'' ''txt'' 0 ?cancel
      = Some (Inr [])"
    by simp
  from cancellation_is_not_an_error [of _ _ _ _ _ _ o1 ?fail] o1
  have 4: "getOpenFileName [''Text Files(*.txt)|*.txt''] ''Open'' [] ''a.txt'' ''txt'' 0 ?fail
      = Inl (runtime_error ''Open file dialog failed: 2'')"
    by (simp add: t)
  from 1 2 3 4 show ?thesis by simp
qed



text \<open>
  Claim C8, as the code has it. For a prompt dialog that comes up, the first message that
  ends it decides: on the command of the OK button \<^verbatim>\<open>promptDialog\<close> returns true and
  \<open>output\<close> is the text of the input control at that moment, cut to the 255 code units
  the procedure's buffer holds, in UTF-8 (the whole text when it has at most 255 code
  units); on the command of the Cancel button and on the close message it returns false
  and \<open>output\<close> is empty, whatever the flag \<open>g_did_confirm\<close> held before the call.
\<close>

theorem promptDialog_outcomes:
  "utf8ToWide message = Inr g_message \<and> utf8ToWide defaultContent = Inr g_defalutContent
     \<and> utf8ToWide title = Inr wtitle \<and> window_created env
     \<and> messages env = pre @ (msg, edit) # post
     \<and> (\<forall>p\<in>set pre. \<not> ends_prompt (fst p))
   \<longrightarrow>
     (\<forall>wParam. msg = WM_COMMAND wParam \<and> LOWORD wParam = GCOMMMDLG_IDOK
        \<longrightarrow> promptDialog title message defaultContent hParent before env =
            Inr \<lparr>returned = Some (True, utf16_to_utf8 (take 255 (c_str_value edit))),
                 calls = [RegisterClassExW, CreateWindowExW, ShowWindow, UpdateWindow]
                   @ map (DispatchMessageW \<circ> fst) (pre @ [(msg, edit)])
                   @ [UnregisterClassW]\<rparr>
          \<and> (length edit \<le> 255 \<and> 0 \<notin> set edit
             \<longrightarrow> take 255 (c_str_value edit) = edit))
     \<and> ((\<exists>wParam. msg = WM_COMMAND wParam \<and> LOWORD wParam = GCOMMMDLG_IDCANCEL)
          \<or> msg = WM_CLOSE
        \<longrightarrow> promptDialog title message defaultContent hParent before env =
            Inr \<lparr>returned = Some (False, []),
                 calls = [RegisterClassExW, CreateWindowExW, ShowWindow, UpdateWindow]
                   @ map (DispatchMessageW \<circ> fst) (pre @ [(msg, edit)])
                   @ [UnregisterClassW]\<rparr>)"
proof (intro impI allI conjI)
  fix wParam
  assume a: "utf8ToWide message = Inr g_message \<and> utf8ToWide defaultContent = Inr g_defalutContent
     \<and> utf8ToWide title = Inr wtitle \<and> window_created env
     \<and> messages env = pre @ (msg, edit) # post
     \<and> (\<forall>p\<in>set pre. \<not> ends_prompt (fst p))"
    and b: "msg = WM_COMMAND wParam \<and> LOWORD wParam = GCOMMMDLG_IDOK"
  from a b have m: "messages env = pre @ (WM_COMMAND wParam, edit) # post" by simp
  from a b promptDialog_confirm [where before = before and hParent = hParent, OF _ _ _ _ m]
  show "promptDialog title message defaultContent hParent before env =
            Inr \<lparr>returned = Some (True, utf16_to_utf8 (take 255 (c_str_value edit))),
                 calls = [RegisterClassExW, CreateWindowExW, ShowWindow, UpdateWindow]
                   @ map (DispatchMessageW \<circ> fst) (pre @ [(msg, edit)])
                   @ [UnregisterClassW]\<rparr>"
    by simp
next
  assume "length edit \<le> 255 \<and> 0 \<notin> set edit"
  then show "take 255 (c_str_value edit) = edit" by (simp add: c_str_value_id)
next
  assume a: "utf8ToWide message = Inr g_message \<and> utf8ToWide defaultContent = Inr g_defalutContent
     \<and> utf8ToWide title = Inr wtitle \<and> window_created env
     \<and> messages env = pre @ (msg, edit) # post
     \<and> (\<forall>p\<in>set pre. \<not> ends_prompt (fst p))"
    and b: "(\<exists>wParam. msg = WM_COMMAND wParam \<and> LOWORD wParam = GCOMMMDLG_IDCANCEL)
          \<or> msg = WM_CLOSE"
  from a have m: "messages env = pre @ (msg, edit) # post" by simp
  from a promptDialog_cancel [where before = before and hParent = hParent, OF _ _ _ _ m _ b]
  show "promptDialog title message defaultContent hParent before env =
            Inr \<lparr>returned = Some (False, []),
                 calls = [RegisterClassExW, CreateWindowExW, ShowWindow, UpdateWindow]
                   @ map (DispatchMessageW \<circ> fst) (pre @ [(msg, edit)])
                   @ [UnregisterClassW]\<rparr>"
    by simp
qed

text \<open>
  A text confirmed after an edit notification, a cancellation and a close; the last two
  with the flag set by an earlier call.
\<close>

theorem promptDialog_outcomes_witness:
  "promptDialog ''Name'' ''Enter a name'' [] 0
       \<lparr>g_inputText = [], g_did_confirm = False, prompt_quit_posted = False\<rparr>
       \<lparr>class_registered = True, window_created = True,
        messages = [(WM_CREATE, []), (WM_COMMAND 1002, L ''Ad''), (WM_COMMAND 1003, L ''Ada'')]\<rparr>
     = Inr \<lparr>returned = Some (True, ''Ada''),
            calls = [RegisterClassExW, CreateWindowExW, ShowWindow, UpdateWindow,
                     DispatchMessageW WM_CREATE, DispatchMessageW (WM_COMMAND 1002),
                     DispatchMessageW (WM_COMMAND 1003), UnregisterClassW]\<rparr>
   \<and> promptDialog ''Name'' ''Enter a name'' [] 0
       \<lparr>g_inputText = [], g_did_confirm = True, prompt_quit_posted = False\<rparr>
       \<lparr>class_registered = True, window_created = True,
        messages = [(WM_COMMAND 1004, L ''Ada'')]\<rparr>
     = Inr \<lparr>returned = Some (False, []),
            calls = [RegisterClassExW, CreateWindowExW, ShowWindow, UpdateWindow,
                     DispatchMessageW (WM_COMMAND 1004), UnregisterClassW]\<rparr>
   \<and> promptDialog ''Name'' ''Enter a name'' [] 0
       \<lparr>g_inputText = [], g_did_confirm = True, prompt_quit_posted = False\<rparr>
       \<lparr>class_registered = True, window_created = True,
        messages = [(WM_CLOSE, L ''Ada'')]\<rparr>
     = Inr \<lparr>returned = Some (False, []),
            calls = [RegisterClassExW, CreateWindowExW, ShowWindow, UpdateWindow,
                     DispatchMessageW WM_CLOSE, UnregisterClassW]\<rparr>"
proof -
  let ?e1 = "\<lparr>class_registered = True, window_created = True,
        messages = [(WM_CREATE, []), (WM_COMMAND 1002, L ''Ad''), (WM_COMMAND 1003, L ''Ada'')]\<rparr>"
  let ?e2 = "\<lparr>class_registered = True, window_created = True,
        messages = [(WM_COMMAND 1004, L ''Ada'')]\<rparr>"
  let ?e3 = "\<lparr>class_registered = True, window_created = True,
        messages = [(WM_CLOSE, L ''Ada'')]\<rparr>"
  have m: "utf8ToWide ''Enter a name'' = Inr (L ''Enter a name'')"
    and t: "utf8ToWide ''Name'' = Inr (L ''Name'')"
    and d: "utf8ToWide [] = Inr (L [])"
    by (simp_all add: utf8ToWide_ascii INT_MAX_def)
  have i1: "\<forall>p\<in>set [(WM_CREATE, []), (WM_COMMAND 1002, L ''Ad'')]. \<not> ends_prompt (fst p)"
    by (simp add: ends_prompt_def LOWORD_def GCOMMMDLG_IDOK_def GCOMMMDLG_IDCANCEL_def)
  have z: "(0::wchar_t) \<notin> set (L ''Ada'')" by (simp add: L_def)
  have a: "\<forall>c\<in>set ''Ada''. of_char c < (128::nat)" by simp
  have u: "utf16_to_utf8 (take 255 (c_str_value (L ''Ada''))) = ''Ada''"
  proof -
    have "length (L ''Ada'') = 3" by (simp add: L_def)
    then show ?thesis using utf16_to_utf8_ascii [OF a] by (simp add: c_str_value_id [OF z])
  qed
  note w = promptDialog_outcomes [where title = "''Name''" and message = "''Enter a name''"
      and defaultContent = "[]" and hParent = 0 and g_message = "L ''Enter a name''"
      and g_defalutContent = "L []" and wtitle = "L ''Name''"]
  have 1: "promptDialog ''Name'' ''Enter a name'' [] 0
       \<lparr>g_inputText = [], g_did_confirm = False, prompt_quit_posted = False\<rparr> ?e1
     = Inr \<lparr>returned = Some (True, ''Ada''),
            calls = [RegisterClassExW, CreateWindowExW, ShowWindow, UpdateWindow,
                     DispatchMessageW WM_CREATE, DispatchMessageW (WM_COMMAND 1002),
                     DispatchMessageW (WM_COMMAND 1003), UnregisterClassW]\<rparr>"
    using w [where env = "?e1" and pre = "[(WM_CREATE, []), (WM_COMMAND 1002, L ''Ad'')]"
        and msg = "WM_COMMAND 1003" and edit = "L ''Ada''" and post = "[]"
        and before = "\<lparr>g_inputText = [], g_did_confirm = False, prompt_quit_posted = False\<rparr>",
        THEN mp, THEN conjunct1, rule_format, of 1003, THEN conjunct1] m t d i1 u
    by (simp add: LOWORD_def GCOMMMDLG_IDOK_def)
  have 2: "promptDialog ''Name'' ''Enter a name'' [] 0
       \<lparr>g_inputText = [], g_did_confirm = True, prompt_quit_posted = False\<rparr> ?e2
     = Inr \<lparr>returned = Some (False, []),
            calls = [RegisterClassExW, CreateWindowExW, ShowWindow, UpdateWindow,
                     DispatchMessageW (WM_COMMAND 1004), UnregisterClassW]\<rparr>"
    using w [where env = "?e2" and pre = "[]"
        and msg = "WM_COMMAND 1004" and edit = "L ''Ada''" and post = "[]"
        and before = "\<lparr>g_inputText = [], g_did_confirm = True, prompt_quit_posted = False\<rparr>",
        THEN mp, THEN conjunct2] m t d
    by (simp add: LOWORD_def GCOMMMDLG_IDCANCEL_def)
  have 3: "promptDialog ''Name'' ''Enter a name'' [] 0
       \<lparr>g_inputText = [], g_did_confirm = True, prompt_quit_posted = False\<rparr> ?e3
     = Inr \<lparr>returned = Some (False, []),
            calls = [RegisterClassExW, CreateWindowExW, ShowWindow, UpdateWindow,
                     DispatchMessageW WM_CLOSE, UnregisterClassW]\<rparr>"
    using w [where env = "?e3" and pre = "[]"
        and msg = "WM_CLOSE" and edit = "L ''Ada''" and post = "[]"
        and before = "\<lparr>g_inputText = [], g_did_confirm = True, prompt_quit_posted = False\<rparr>",
        THEN mp, THEN conjunct2] m t d
    by simp
  from 1 2 3 show ?thesis by simp
qed

text \<open>
  The claim as it was written fails for a longer text: of 256 letters the output holds
  255.
\<close>

theorem promptDialog_counterexample:
  "promptDialog ''Name'' ''Enter a name'' [] 0
       \<lparr>g_inputText = [], g_did_confirm = False, prompt_quit_posted = False\<rparr>
       \<lparr>class_registered = True, window_created = True,
        messages = [(WM_COMMAND 1003, L (replicate 256 CHR ''a''))]\<rparr>
     = Inr \<lparr>returned = Some (True, replicate 255 CHR ''a''),
            calls = [RegisterClassExW, CreateWindowExW, ShowWindow, UpdateWindow,
                     DispatchMessageW (WM_COMMAND 1003), UnregisterClassW]\<rparr>
   \<and> utf16_to_utf8 (L (replicate 256 CHR ''a'')) = replicate 256 CHR ''a''"
proof -
  let ?e = "\<lparr>class_registered = True, window_created = True,
        messages = [(WM_COMMAND 1003, L (replicate 256 CHR ''a''))]\<rparr>"
  have m: "utf8ToWide ''Enter a name'' = Inr (L ''Enter a name'')"
    and t: "utf8ToWide ''Name'' = Inr (L ''Name'')"
    and d: "utf8ToWide [] = Inr (L [])"
    by (simp_all add: utf8ToWide_ascii INT_MAX_def)
  have z: "(0::wchar_t) \<notin> set (L (replicate 256 CHR ''a''))" by (simp add: L_def)
  have k: "take 255 (L (replicate 256 CHR ''a'')) = L (replicate 255 CHR ''a'')"
    by (simp add: L_def)
  have u: "utf16_to_utf8 (L (replicate 255 CHR ''a'')) = replicate 255 CHR ''a''"
    "utf16_to_utf8 (L (replicate 256 CHR ''a'')) = replicate 256 CHR ''a''"
    by (rule utf16_to_utf8_ascii, simp)+
  have "messages ?e = [] @ (WM_COMMAND 1003, L (replicate 256 CHR ''a'')) # []" by simp
  from promptDialog_confirm [OF m d t _ this, where hParent = 0
      and before = "\<lparr>g_inputText = [], g_did_confirm = False, prompt_quit_posted = False\<rparr>"]
  show ?thesis
    by (simp add: LOWORD_def GCOMMMDLG_IDOK_def c_str_value_id [OF z] k u)
qed

text \<open>
  Claim C9. For a non-empty options list whose texts convert: if the registration of the
  window class fails, \<^verbatim>\<open>messageBox\<close> returns 0 having made no other platform call;
  if the registration succeeds and the creation of the window fails, no message is
  dispatched and the call returns 0, the value \<open>g_selectedId\<close> was set to. In both
  cases the 0 is returned, not raised, and no user has closed a dialog.
\<close>

theorem messageBox_platform_failures:
  "options \<noteq> [] \<and> convert_options options = Inr g_options
     \<and> utf8ToWide message = Inr g_msgContent \<and> utf8ToWide title = Inr g_boxTitle
   \<longrightarrow> (\<not> class_registered env
        \<longrightarrow> messageBox title message options hParent env =
            Inr \<lparr>returned = Some 0, calls = [RegisterClassExW]\<rparr>)
     \<and> (class_registered env \<and> \<not> window_created env
        \<longrightarrow> messageBox title message options hParent env =
            Inr \<lparr>returned = Some 0,
                 calls = [RegisterClassExW, CreateWindowExW, UnregisterClassW]\<rparr>)"
  by (simp add: messageBox_def bind_exn_def)

text \<open>The two failures, with the options of the specification's example.\<close>

theorem messageBox_platform_failures_witness:
  "messageBox ''Title'' ''Proceed?'' [(7, ''Yes''), (8, ''No'')] 0
       \<lparr>class_registered = False, window_created = False, messages = []\<rparr>
     = Inr \<lparr>returned = Some 0, calls = [RegisterClassExW]\<rparr>
   \<and> messageBox ''Title'' ''Proceed?'' [(7, ''Yes''), (8, ''No'')] 0
       \<lparr>class_registered = True, window_created = False, messages = []\<rparr>
     = Inr \<lparr>returned = Some 0, calls = [RegisterClassExW, CreateWindowExW, UnregisterClassW]\<rparr>"
proof -
  let ?opts = "[(7, ''Yes''), (8, ''No'')] :: (int \<times> string) list"
  have c: "convert_options ?opts = Inr [(7, L ''Yes''), (8, L ''No'')]"
    by (simp add: bind_exn_def utf8ToWide_ascii INT_MAX_def)
  have m: "utf8ToWide ''Proceed?'' = Inr (L ''Proceed?'')"
    and t: "utf8ToWide ''Title'' = Inr (L ''Title'')"
    by (simp_all add: utf8ToWide_ascii INT_MAX_def)
  note w = messageBox_platform_failures [where title = "''Title''" and message = "''Proceed?''"
      and hParent = 0 and options = "?opts" and g_options = "[(7, L ''Yes''), (8, L ''No'')]"
      and g_msgContent = "L ''Proceed?''" and g_boxTitle = "L ''Title''"]
  from w [where env = "\<lparr>class_registered = False, window_created = False, messages = []\<rparr>"]
    w [where env = "\<lparr>class_registered = True, window_created = False, messages = []\<rparr>"] c m t
  show ?thesis by simp
qed

text \<open>
  Claim C10, as the code has it. After the native call, \<^verbatim>\<open>chooseColor\<close> either raises,
  when the call failed with a non-zero extended error, and leaves the colour as it was;
  or it writes all four channels: red, green and blue unpacked from the result field of
  the request and alpha 255. When the user cancels (failure with extended error 0) and
  the dialog has left the result field as the request seeded it, red, green and blue keep
  their values and alpha becomes 255.
\<close>

theorem chooseColor_rewrites:
  "cc = \<lparr>cc_hwndOwner = hwndParent, rgbResult = RGB r g b, lpCustColors = customColors,
         cc_Flags = [CC_RGBINIT, CC_FULLOPEN]\<rparr>
   \<longrightarrow> chooseColor (SDL_Color r g b a) hwndParent customColors dlg =
        (if \<not> color_chosen (dlg cc) \<and> color_extended_error (dlg cc) \<noteq> 0
         then (SDL_Color r g b a,
               Some (runtime_error (''Choose color dialog failed: ''
                       @ to_string (unat (color_extended_error (dlg cc))))))
         else (SDL_Color (GetRValue (rgbResult (cc_after (dlg cc))))
                         (GetGValue (rgbResult (cc_after (dlg cc))))
                         (GetBValue (rgbResult (cc_after (dlg cc)))) 255, None))
     \<and> (\<not> color_chosen (dlg cc) \<and> color_extended_error (dlg cc) = 0
          \<and> rgbResult (cc_after (dlg cc)) = rgbResult cc
        \<longrightarrow> chooseColor (SDL_Color r g b a) hwndParent customColors dlg =
            (SDL_Color r g b 255, None))"
  by (simp add: chooseColor_def Let_def RGB_channels)

text \<open>A cancelled call and a call in which a colour was picked.\<close>

theorem chooseColor_rewrites_witness:
  "chooseColor (SDL_Color 10 20 30 40) 0 (replicate 16 0)
       (\<lambda>cc. \<lparr>color_chosen = False, cc_after = cc, color_extended_error = 0\<rparr>)
     = (SDL_Color 10 20 30 255, None)
   \<and> chooseColor (SDL_Color 10 20 30 40) 0 (replicate 16 0)
       (\<lambda>cc. \<lparr>color_chosen = True, cc_after = cc\<lparr>rgbResult := RGB 1 2 3\<rparr>,
               color_extended_error = 0\<rparr>)
     = (SDL_Color 1 2 3 255, None)"
proof -
  let ?cc = "\<lparr>cc_hwndOwner = 0, rgbResult = RGB 10 20 30, lpCustColors = replicate 16 0,
         cc_Flags = [CC_RGBINIT, CC_FULLOPEN]\<rparr>"
  from chooseColor_rewrites [of ?cc 0 10 20 30 "replicate 16 0" 40
      "\<lambda>cc. \<lparr>color_chosen = False, cc_after = cc, color_extended_error = 0\<rparr>",
      THEN mp, OF refl, THEN conjunct2]
  have 1: "chooseColor (SDL_Color 10 20 30 40) 0 (replicate 16 0)
       (\<lambda>cc. \<lparr>color_chosen = False, cc_after = cc, color_extended_error = 0\<rparr>)
     = (SDL_Color 10 20 30 255, None)" by simp
  from chooseColor_rewrites [of ?cc 0 10 20 30 "replicate 16 0" 40
      "\<lambda>cc. \<lparr>color_chosen = True, cc_after = cc\<lparr>rgbResult := RGB 1 2 3\<rparr>,
               color_extended_error = 0\<rparr>",
      THEN mp, OF refl, THEN conjunct1]
  have 2: "chooseColor (SDL_Color 10 20 30 40) 0 (replicate 16 0)
       (\<lambda>cc. \<lparr>color_chosen = True, cc_after = cc\<lparr>rgbResult := RGB 1 2 3\<rparr>,
               color_extended_error = 0\<rparr>)
     = (SDL_Color 1 2 3 255, None)" by (simp add: RGB_channels)
  from 1 2 show ?thesis by simp
qed

text \<open>
  The claim as it was written, with alpha set to 255 in every case, fails when the call
  fails with extended error 2: an alpha of 40 stays 40.
\<close>

theorem chooseColor_counterexample:
  "chooseColor (SDL_Color 10 20 30 40) 0 (replicate 16 0)
       (\<lambda>cc. \<lparr>color_chosen = False, cc_after = cc, color_extended_error = 2\<rparr>)
     = (SDL_Color 10 20 30 40, Some (runtime_error ''Choose color dialog failed: 2''))"
proof -
  have "to_string 2 = ''2''" by code_simp
  then show ?thesis by (simp add: chooseColor_def)
qed

end
